theory Spec2Isabelle
  imports Main "HOL-Library.Sublist" "HOL-Library.AList"
begin

section \<open>JavaScript strings\<close>

text \<open>
  A JavaScript string is a sequence of UTF-16 code units; \<open>length\<close>, \<open>substring\<close>,
  \<open>includes\<close> and a regular expression without the \<open>u\<close> flag all work on code units.
  A code unit is modelled by its number.
\<close>

type_synonym jsstring = "nat list"

definition js :: "string \<Rightarrow> jsstring" where
  "js s = map of_char s"

text \<open>\<open>s.substring(0, n)\<close>\<close>

definition substring0 :: "jsstring \<Rightarrow> nat \<Rightarrow> jsstring" where
  "substring0 s n = take n s"

text \<open>\<open>s.includes(t)\<close>: \<open>t\<close> occurs in \<open>s\<close> as a contiguous run of code units.\<close>

fun str_includes :: "jsstring \<Rightarrow> jsstring \<Rightarrow> bool" where
  "str_includes [] t = (t = [])"
| "str_includes (c # cs) t = (prefix t (c # cs) \<or> str_includes cs t)"

text \<open>
  The class \<open>\s\<close> of a regular expression, which is also what \<open>trim\<close> removes:
  the white space and line terminator code units of ECMAScript.
\<close>

definition isWhiteSpace :: "nat \<Rightarrow> bool" where
  "isWhiteSpace c \<longleftrightarrow>
     (0x09 \<le> c \<and> c \<le> 0x0D) \<or> c = 0x20 \<or> c = 0xA0 \<or> c = 0x1680
     \<or> (0x2000 \<le> c \<and> c \<le> 0x200A) \<or> c = 0x2028 \<or> c = 0x2029 \<or> c = 0x202F
     \<or> c = 0x205F \<or> c = 0x3000 \<or> c = 0xFEFF"

definition trim :: "jsstring \<Rightarrow> jsstring" where
  "trim s = rev (dropWhile isWhiteSpace (rev (dropWhile isWhiteSpace s)))"

text \<open>
  \<open>s.split(re)\<close> for a regular expression \<open>re\<close> that is one character class \<open>d\<close>:
  the pieces between the delimiters, empty pieces included.
\<close>

fun split :: "(nat \<Rightarrow> bool) \<Rightarrow> jsstring \<Rightarrow> jsstring list" where
  "split d [] = [[]]"
| "split d (c # cs) =
     (if d c then [] # split d cs
      else (case split d cs of [] \<Rightarrow> [[c]] | seg # segs \<Rightarrow> (c # seg) # segs))"

section \<open>Title normalization (content script)\<close>

text \<open>
  The character class that \<open>normalizeTitle\<close> in \<open>waitForTitleUpdate\<close> deletes:
  \<open>\s\<close>, U+3000, U+002D, U+2010 to U+2015, U+003A, U+FF1A, U+30FB, U+3001, U+3002,
  U+FF01, U+FF1F, U+0021, U+003F, U+002C, U+002E, U+0028, U+0029, U+FF08, U+FF09, U+3010,
  U+3011, U+005B and U+005D; the result is cut to 30 code units.
\<close>

definition isStripped :: "nat \<Rightarrow> bool" where
  "isStripped c \<longleftrightarrow>
     isWhiteSpace c \<or> c = 0x3000 \<or> c = 0x2D \<or> (0x2010 \<le> c \<and> c \<le> 0x2015)
     \<or> c = 0x3A \<or> c = 0xFF1A \<or> c = 0x30FB \<or> c = 0x3001 \<or> c = 0x3002
     \<or> c = 0xFF01 \<or> c = 0xFF1F \<or> c = 0x21 \<or> c = 0x3F \<or> c = 0x2C \<or> c = 0x2E
     \<or> c = 0x28 \<or> c = 0x29 \<or> c = 0xFF08 \<or> c = 0xFF09 \<or> c = 0x3010 \<or> c = 0x3011
     \<or> c = 0x5B \<or> c = 0x5D"

definition normalizeTitle :: "jsstring \<Rightarrow> jsstring" where
  "normalizeTitle title = substring0 (filter (\<lambda>c. \<not> isStripped c) title) 30"

text \<open>
  The class \<open>splitTitle\<close> splits on: U+3000, U+003A, U+FF1A, U+30FB, U+2010 to U+2015,
  U+002D, U+2013, U+2014, U+301C and U+007C. Each piece is trimmed and the empty ones
  are dropped (\<open>filter(Boolean)\<close>).
\<close>

definition isDelimiter :: "nat \<Rightarrow> bool" where
  "isDelimiter c \<longleftrightarrow>
     c = 0x3000 \<or> c = 0x3A \<or> c = 0xFF1A \<or> c = 0x30FB \<or> (0x2010 \<le> c \<and> c \<le> 0x2015)
     \<or> c = 0x2D \<or> c = 0x2013 \<or> c = 0x2014 \<or> c = 0x301C \<or> c = 0x7C"

definition splitTitle :: "jsstring \<Rightarrow> jsstring list" where
  "splitTitle title = filter (\<lambda>part. part \<noteq> []) (map trim (split isDelimiter title))"

text \<open>
  The key of a book in the local cache (\<open>extractAllBooksAuto\<close>):
  the first 50 code units of the title, where every code unit outside \<open>a-z\<close>,
  \<open>A-Z\<close>, \<open>0-9\<close>, U+3040 to U+309F, U+30A0 to U+30FF and U+4E00 to U+9FFF is
  replaced by an underscore.
\<close>

definition isKeyChar :: "nat \<Rightarrow> bool" where
  "isKeyChar c \<longleftrightarrow>
     (0x61 \<le> c \<and> c \<le> 0x7A) \<or> (0x41 \<le> c \<and> c \<le> 0x5A) \<or> (0x30 \<le> c \<and> c \<le> 0x39)
     \<or> (0x3040 \<le> c \<and> c \<le> 0x309F) \<or> (0x30A0 \<le> c \<and> c \<le> 0x30FF)
     \<or> (0x4E00 \<le> c \<and> c \<le> 0x9FFF)"

definition bookKey :: "jsstring \<Rightarrow> jsstring" where
  "bookKey title = map (\<lambda>c. if isKeyChar c then c else 0x5F) (substring0 title 50)"

section \<open>Readiness detector: the title signal of \<open>waitForTitleUpdate\<close>\<close>

text \<open>
  \<open>expectedVariants\<close> is a JavaScript \<open>Set\<close>: \<open>add\<close> appends a value that is not
  in the set yet and keeps the insertion order.
\<close>

definition setAdd :: "jsstring list \<Rightarrow> jsstring \<Rightarrow> jsstring list" where
  "setAdd vs v = (if v \<in> set vs then vs else vs @ [v])"

definition expectedVariants :: "jsstring \<Rightarrow> jsstring list" where
  "expectedVariants expectedTitle =
     (let expectedNorm = normalizeTitle expectedTitle;
          vs0 = setAdd [] expectedNorm;
          vs1 = foldl (\<lambda>vs part. setAdd vs (normalizeTitle part)) vs0 (splitTitle expectedTitle);
          vs2 = (if length expectedNorm > 10 then setAdd vs1 (substring0 expectedNorm 10) else vs1);
          vs3 = (if length expectedNorm > 15 then setAdd vs2 (substring0 expectedNorm 15) else vs2)
      in vs3)"

text \<open>
  \<open>matchesExpected\<close>: an empty panel title never matches, and an empty variant is
  skipped (\<open>if (!variant) continue\<close>).
\<close>

fun matchesLoop :: "jsstring \<Rightarrow> jsstring list \<Rightarrow> bool" where
  "matchesLoop norm [] = False"
| "matchesLoop norm (variant # rest) =
     (if variant = [] then matchesLoop norm rest
      else if str_includes norm variant \<or> str_includes variant norm then True
      else matchesLoop norm rest)"

definition matchesExpected :: "jsstring \<Rightarrow> jsstring \<Rightarrow> bool" where
  "matchesExpected expectedTitle currentTitle =
     (if currentTitle = [] then False
      else matchesLoop (normalizeTitle currentTitle) (expectedVariants expectedTitle))"

text \<open>
  What one reading of the page gives the detector: the title of the right panel
  (\<open>readRightPanelTitle\<close>, empty when none is rendered), the highlight signature
  (\<open>readHighlightSignature\<close>) and whether the clicked container is selected
  (\<open>isBookSelected\<close>).
\<close>

record observation =
  panelTitle :: jsstring
  signature :: jsstring
  selected :: bool

definition isReady :: "jsstring \<Rightarrow> jsstring \<Rightarrow> observation \<Rightarrow> bool" where
  "isReady expectedTitle initialSignature ob =
     (if matchesExpected expectedTitle (panelTitle ob) then True
      else if signature ob \<noteq> [] \<and> signature ob \<noteq> initialSignature \<and> selected ob then True
      else False)"

text \<open>
  \<open>waitForTitleUpdate\<close>: \<open>first\<close> is the page when the function is called, where
  the initial signature is read and readiness is checked at once; \<open>later\<close> are the
  readings made by the mutation observer and the 200 ms timer before the timeout fires.
  The result is \<open>true\<close> as soon as one reading is ready and \<open>false\<close> at the timeout.
\<close>

definition waitForTitleUpdate :: "jsstring \<Rightarrow> observation \<Rightarrow> observation list \<Rightarrow> bool" where
  "waitForTitleUpdate expectedTitle first later =
     (if expectedTitle = [] then True
      else list_ex (isReady expectedTitle (signature first)) (first # later))"

section \<open>The Notion client (\<open>lib/notion-api.js\<close>)\<close>

text \<open>
  A rejected promise or a thrown \<open>Error\<close> is a value: \<open>request\<close> throws the
  message of a response that is not ok (or the network failure of \<open>fetch\<close>), and
  \<open>syncBooksToNotion\<close> throws when the token or the database id is not configured.
\<close>

datatype error = ApiError jsstring | NotConfigured

text \<open>
  The schema of a database (\<open>database.properties\<close>): the property names with their
  types, in the order of \<open>Object.entries\<close>. The values of the properties of a page
  that the client writes; \<open>PDateNow\<close> is \<open>new Date().toISOString()\<close>.
\<close>

type_synonym schema = "(jsstring \<times> jsstring) list"

datatype propvalue =
    PTitle jsstring
  | PRichText jsstring
  | PNumber nat
  | PDateNow
  | PUrl jsstring
  | PFiles jsstring jsstring

type_synonym properties = "(jsstring \<times> propvalue) list"

record page =
  page_id :: jsstring

text \<open>A highlight as the content script extracts it; an unknown location is empty.\<close>

record highlight =
  htext :: jsstring
  location :: jsstring

record book =
  title :: jsstring
  author :: jsstring
  amazonUrl :: jsstring
  coverUrl :: jsstring
  highlights :: "highlight list"

text \<open>
  The quote block built for a highlight: its text, and the location line when the
  highlight has a location. A block read back from a page: a quote or a callout with
  the plain texts of its rich text, or a block of another type.
\<close>

datatype block = QuoteBlock jsstring "jsstring option"

datatype rblock = Quote "jsstring list" | Callout "jsstring list" | OtherBlock

record children =
  results :: "rblock list"
  has_more :: bool
  next_cursor :: "jsstring option"

datatype request =
    GetDatabase jsstring
  | QueryByTitle jsstring jsstring jsstring
  | CreatePage jsstring properties
  | UpdatePage jsstring properties
  | GetChildren jsstring "jsstring option"
  | AppendChildren jsstring "block list"

text \<open>
  The messages of \<open>broadcastLog\<close>, by the call that sends them, and what the
  background script does that can be observed: requests to the Notion API, delays,
  progress messages (current, total, book title or \<open>null\<close>, highlights so far) and
  log messages.
\<close>

datatype logentry =
    LogStart nat nat jsstring
  | LogAdded nat
  | LogNoChange
  | LogNewBook nat
  | LogError jsstring error

datatype event =
    Request request
  | Delay nat
  | Progress nat nat "jsstring option" nat
  | Log logentry

text \<open>
  The remote store is not under the program's control: the outcome of every request
  is given by the environment, and may depend on everything that happened before
  (the events so far). Each field answers one endpoint as \<open>request\<close> would:
  \<open>Inl\<close> when it throws, \<open>Inr\<close> with the parsed response otherwise.
\<close>

record remote =
  r_database :: "event list \<Rightarrow> jsstring \<Rightarrow> error + schema"
  r_query :: "event list \<Rightarrow> jsstring \<Rightarrow> jsstring \<Rightarrow> jsstring \<Rightarrow> error + page list"
  r_create :: "event list \<Rightarrow> jsstring \<Rightarrow> properties \<Rightarrow> error + page"
  r_update :: "event list \<Rightarrow> jsstring \<Rightarrow> properties \<Rightarrow> error + page"
  r_children :: "event list \<Rightarrow> jsstring \<Rightarrow> jsstring option \<Rightarrow> error + children"
  r_append :: "event list \<Rightarrow> jsstring \<Rightarrow> block list \<Rightarrow> error + unit"

definition getDatabase ::
  "remote \<Rightarrow> jsstring \<Rightarrow> event list \<Rightarrow> (error + schema) \<times> event list" where
  "getDatabase R databaseId tr =
     (r_database R tr databaseId, tr @ [Request (GetDatabase databaseId)])"

text \<open>The name of the first property of type \<open>title\<close>, \<open>Name\<close> when there is none.\<close>

definition titlePropertyName :: "schema \<Rightarrow> jsstring" where
  "titlePropertyName dbProperties =
     (case List.find (\<lambda>(propName, propType). propType = js ''title'') dbProperties of
        Some (propName, propType) \<Rightarrow> propName
      | None \<Rightarrow> js ''Name'')"

text \<open>
  \<open>findBookByTitle\<close>: the database is read outside the \<open>try\<close>; an error of the
  title query is caught and the function falls through to \<open>return null\<close>.
\<close>

definition findBookByTitle ::
  "remote \<Rightarrow> jsstring \<Rightarrow> jsstring \<Rightarrow> event list \<Rightarrow> (error + page option) \<times> event list" where
  "findBookByTitle R databaseId title' tr =
     (case getDatabase R databaseId tr of
        (Inl e, tr1) \<Rightarrow> (Inl e, tr1)
      | (Inr dbProperties, tr1) \<Rightarrow>
          if title' \<noteq> [] then
            (let name = titlePropertyName dbProperties;
                 tr2 = tr1 @ [Request (QueryByTitle databaseId name title')]
             in case r_query R tr1 databaseId name title' of
                  Inr (p # ps) \<Rightarrow> (Inr (Some p), tr2)
                | Inr [] \<Rightarrow> (Inr None, tr2)
                | Inl e \<Rightarrow> (Inr None, tr2))
          else (Inr None, tr1))"

text \<open>\<open>findProperty\<close> of \<open>createBookPage\<close>: the first of the names that the schema has.\<close>

fun findProperty :: "schema \<Rightarrow> jsstring list \<Rightarrow> (jsstring \<times> jsstring) option" where
  "findProperty dbProperties [] = None"
| "findProperty dbProperties (name # names) =
     (case map_of dbProperties name of
        Some config \<Rightarrow> Some (name, config)
      | None \<Rightarrow> findProperty dbProperties names)"

definition authorNames :: "jsstring list" where
  "authorNames = [js ''Author'', [0x8457, 0x8005], [0x8457, 0x8005, 0x540D], js ''author'',
     [0x4F5C, 0x8005], js ''Writer'', js ''writer'']"

definition highlightCountNames :: "jsstring list" where
  "highlightCountNames =
     [js ''Highlight Count'', [0x30CF, 0x30A4, 0x30E9, 0x30A4, 0x30C8, 0x6570],
      js ''highlight_count'']"

definition lastSyncedNames :: "jsstring list" where
  "lastSyncedNames =
     [js ''Last Synced'', [0x6700, 0x7D42, 0x540C, 0x671F, 0x65E5, 0x6642],
      [0x6700, 0x7D42, 0x540C, 0x671F, 0x65E5], [0x540C, 0x671F, 0x65E5, 0x6642],
      [0x540C, 0x671F, 0x65E5], js ''last_synced'', js ''LastSynced'']"

definition amazonUrlNames :: "jsstring list" where
  "amazonUrlNames = [js ''Amazon URL'', js ''Amazon'', js ''URL'', js ''amazon_url'']"

definition coverNames :: "jsstring list" where
  "coverNames = [[0x8868, 0x7D19], js ''Cover'', js ''cover'', [0x30AB, 0x30D0, 0x30FC]]"

definition createProperties :: "schema \<Rightarrow> book \<Rightarrow> properties" where
  "createProperties dbProperties bookData =
     (let p0 = [(titlePropertyName dbProperties, PTitle (title bookData))];
          p1 = (case findProperty dbProperties authorNames of
                  Some (name, config) \<Rightarrow>
                    if author bookData \<noteq> []
                    then AList.update name (PRichText (author bookData)) p0 else p0
                | None \<Rightarrow> p0);
          p2 = (case findProperty dbProperties highlightCountNames of
                  Some (name, config) \<Rightarrow>
                    AList.update name (PNumber (length (highlights bookData))) p1
                | None \<Rightarrow> p1);
          p3 = (case findProperty dbProperties lastSyncedNames of
                  Some (name, config) \<Rightarrow> AList.update name PDateNow p2
                | None \<Rightarrow> p2);
          p4 = (case findProperty dbProperties amazonUrlNames of
                  Some (name, config) \<Rightarrow>
                    if amazonUrl bookData \<noteq> []
                    then AList.update name (PUrl (amazonUrl bookData)) p3 else p3
                | None \<Rightarrow> p3);
          p5 = (case findProperty dbProperties coverNames of
                  Some (name, config) \<Rightarrow>
                    if coverUrl bookData \<noteq> [] then
                      (if config = js ''files'' then
                         AList.update name
                           (PFiles (if substring0 (title bookData) 50 \<noteq> []
                                    then substring0 (title bookData) 50 else js ''cover'')
                              (coverUrl bookData)) p4
                       else if config = js ''url'' then
                         AList.update name (PUrl (coverUrl bookData)) p4
                       else p4)
                    else p4
                | None \<Rightarrow> p4)
      in p5)"

definition createBookPage ::
  "remote \<Rightarrow> jsstring \<Rightarrow> book \<Rightarrow> event list \<Rightarrow> (error + page) \<times> event list" where
  "createBookPage R databaseId bookData tr =
     (case getDatabase R databaseId tr of
        (Inl e, tr1) \<Rightarrow> (Inl e, tr1)
      | (Inr dbProperties, tr1) \<Rightarrow>
          (let properties = createProperties dbProperties bookData
           in (r_create R tr1 databaseId properties,
               tr1 @ [Request (CreatePage databaseId properties)])))"

text \<open>
  \<open>updateBookPage\<close>: \<open>highlightCount\<close> is the field of \<open>bookData\<close>, \<open>None\<close> when
  it is \<open>undefined\<close>. With no property to update no request is made for the page and
  \<open>{ id: pageId }\<close> is returned.
\<close>

definition updateProperties :: "schema \<Rightarrow> nat option \<Rightarrow> properties" where
  "updateProperties dbProperties highlightCount =
     (let p0 = [];
          p1 = (case highlightCount of
                  Some n \<Rightarrow>
                    if map_of dbProperties (js ''Highlight Count'') \<noteq> None
                    then AList.update (js ''Highlight Count'') (PNumber n) p0 else p0
                | None \<Rightarrow> p0);
          p2 = (if map_of dbProperties (js ''Last Synced'') \<noteq> None
                then AList.update (js ''Last Synced'') PDateNow p1 else p1)
      in p2)"

definition updateBookPage ::
  "remote \<Rightarrow> jsstring \<Rightarrow> nat option \<Rightarrow> jsstring \<Rightarrow> event list
     \<Rightarrow> (error + page) \<times> event list" where
  "updateBookPage R pageId highlightCount databaseId tr =
     (case getDatabase R databaseId tr of
        (Inl e, tr1) \<Rightarrow> (Inl e, tr1)
      | (Inr dbProperties, tr1) \<Rightarrow>
          (let properties = updateProperties dbProperties highlightCount
           in if length properties = 0 then (Inr \<lparr>page_id = pageId\<rparr>, tr1)
              else (r_update R tr1 pageId properties,
                    tr1 @ [Request (UpdatePage pageId properties)])))"

text \<open>
  \<open>getExistingHighlights\<close>: the texts of the quote and callout blocks of a page,
  read page by page for as long as the response has more and names a cursor. The
  remote side decides when that ends, so the loop need not return: \<open>None\<close> is a
  run that does not.
\<close>

definition blockTexts :: "rblock list \<Rightarrow> jsstring list" where
  "blockTexts bs =
     concat (map (\<lambda>b. case b of Quote ts \<Rightarrow> [concat ts] | Callout ts \<Rightarrow> [concat ts]
                          | OtherBlock \<Rightarrow> []) bs)"

definition truthy :: "jsstring option \<Rightarrow> bool" where
  "truthy c = (case c of None \<Rightarrow> False | Some v \<Rightarrow> v \<noteq> [])"

partial_function (option) getExistingHighlightsLoop ::
  "remote \<Rightarrow> jsstring \<Rightarrow> jsstring option \<Rightarrow> jsstring list \<Rightarrow> event list
     \<Rightarrow> ((error + jsstring list) \<times> event list) option" where
  "getExistingHighlightsLoop R pageId cursor acc tr =
     (case r_children R tr pageId (if truthy cursor then cursor else None) of
        Inl e \<Rightarrow>
          Some (Inl e, tr @ [Request (GetChildren pageId (if truthy cursor then cursor else None))])
      | Inr response \<Rightarrow>
          if truthy (if has_more response then next_cursor response else None)
          then getExistingHighlightsLoop R pageId (next_cursor response)
                 (acc @ blockTexts (results response))
                 (tr @ [Request (GetChildren pageId (if truthy cursor then cursor else None))])
          else Some (Inr (acc @ blockTexts (results response)),
                 tr @ [Request (GetChildren pageId (if truthy cursor then cursor else None))]))"

definition getExistingHighlights ::
  "remote \<Rightarrow> jsstring \<Rightarrow> event list \<Rightarrow> ((error + jsstring list) \<times> event list) option" where
  "getExistingHighlights R pageId tr = getExistingHighlightsLoop R pageId None [] tr"

text \<open>
  \<open>addHighlightBlocks\<close>: one quote block per highlight, sent in slices of
  \<open>batchSize\<close> blocks, with a delay of 350 ms after every slice but the last. A
  request that throws ends the function there.
\<close>

definition toBlock :: "highlight \<Rightarrow> block" where
  "toBlock h = QuoteBlock (htext h) (if location h \<noteq> [] then Some (location h) else None)"

definition batchSize :: nat where
  "batchSize = 100"

function addHighlightBlocksLoop ::
  "remote \<Rightarrow> jsstring \<Rightarrow> block list \<Rightarrow> nat \<Rightarrow> event list \<Rightarrow> (error + unit) \<times> event list" where
  "addHighlightBlocksLoop R pageId children i tr =
     (if i < length children then
        (let batch = take batchSize (drop i children);
             tr1 = tr @ [Request (AppendChildren pageId batch)]
         in case r_append R tr pageId batch of
              Inl e \<Rightarrow> (Inl e, tr1)
            | Inr u \<Rightarrow>
                addHighlightBlocksLoop R pageId children (i + batchSize)
                  (if i + batchSize < length children then tr1 @ [Delay 350] else tr1))
      else (Inr (), tr))"
  by pat_completeness auto
termination
  by (relation "measure (\<lambda>(R, pageId, children, i, tr). length children - i)")
    (auto simp: batchSize_def)

declare addHighlightBlocksLoop.simps [simp del]

definition addHighlightBlocks ::
  "remote \<Rightarrow> jsstring \<Rightarrow> highlight list \<Rightarrow> event list \<Rightarrow> (error + unit) \<times> event list" where
  "addHighlightBlocks R pageId hs tr = addHighlightBlocksLoop R pageId (map toBlock hs) 0 tr"

section \<open>The remote sync (\<open>background.js\<close>)\<close>

text \<open>
  The highlights of a book that are new: those for which no existing text includes
  the first 50 code units of the highlight's text.
\<close>

definition newHighlightsList :: "jsstring list \<Rightarrow> highlight list \<Rightarrow> highlight list" where
  "newHighlightsList existingHighlights hs =
     filter (\<lambda>h. \<not> list_ex (\<lambda>existing. str_includes existing (substring0 (htext h) 50))
                     existingHighlights) hs"

record counters =
  newBooks :: nat
  newHighlights :: nat
  updatedBooks :: nat

record syncResult = counters +
  success :: bool
  totalProcessed :: nat

record settings =
  notionToken :: "jsstring option"
  databaseId :: "jsstring option"

text \<open>
  The body of the \<open>try\<close> of one book, in three parts. Each returns the error that
  was thrown, if one was, with the counters and the events as they are at that point
  (what was counted before a throw stays counted).
\<close>

definition syncExistingBook ::
  "remote \<Rightarrow> jsstring \<Rightarrow> page \<Rightarrow> book \<Rightarrow> counters \<Rightarrow> event list
     \<Rightarrow> (error option \<times> counters \<times> event list) option" where
  "syncExistingBook R dbId pg bk c tr =
     (case getExistingHighlights R (page_id pg) tr of
        None \<Rightarrow> None
      | Some (Inl e, tr1) \<Rightarrow> Some (Some e, c, tr1)
      | Some (Inr existingHighlights, tr1) \<Rightarrow>
          (let new = newHighlightsList existingHighlights (highlights bk)
           in if length new > 0 then
                (case addHighlightBlocks R (page_id pg) new tr1 of
                   (Inl e, tr2) \<Rightarrow> Some (Some e, c, tr2)
                 | (Inr u, tr2) \<Rightarrow>
                     (let c1 = c\<lparr>newHighlights := newHighlights c + length new\<rparr>
                      in case updateBookPage R (page_id pg)
                                (Some (length existingHighlights + length new)) dbId tr2 of
                           (Inl e, tr3) \<Rightarrow> Some (Some e, c1, tr3)
                         | (Inr p, tr3) \<Rightarrow>
                             Some (None, c1\<lparr>updatedBooks := updatedBooks c1 + 1\<rparr>,
                                   tr3 @ [Log (LogAdded (length new))])))
              else Some (None, c, tr1 @ [Log LogNoChange])))"

definition syncNewBook ::
  "remote \<Rightarrow> jsstring \<Rightarrow> book \<Rightarrow> counters \<Rightarrow> event list
     \<Rightarrow> error option \<times> counters \<times> event list" where
  "syncNewBook R dbId bk c tr =
     (case createBookPage R dbId bk tr of
        (Inl e, tr1) \<Rightarrow> (Some e, c, tr1)
      | (Inr pg, tr1) \<Rightarrow>
          (let c1 = c\<lparr>newBooks := newBooks c + 1\<rparr>
           in if length (highlights bk) > 0 then
                (case addHighlightBlocks R (page_id pg) (highlights bk) tr1 of
                   (Inl e, tr2) \<Rightarrow> (Some e, c1, tr2)
                 | (Inr u, tr2) \<Rightarrow>
                     (None, c1\<lparr>newHighlights := newHighlights c1 + length (highlights bk)\<rparr>,
                      tr2 @ [Log (LogNewBook (length (highlights bk)))]))
              else (None, c1, tr1 @ [Log (LogNewBook (length (highlights bk)))])))"

text \<open>
  The end of the \<open>try\<close>, reached when neither branch threw: the second progress
  message and the delay between books.
\<close>

fun finishBook ::
  "nat \<Rightarrow> nat \<Rightarrow> error option \<times> counters \<times> event list
     \<Rightarrow> error option \<times> counters \<times> event list" where
  "finishBook i n (Some e, c, tr) = (Some e, c, tr)"
| "finishBook i n (None, c, tr) =
     (None, c, tr @ [Progress (i + 1) n None (newHighlights c), Delay 350])"

definition syncBook ::
  "remote \<Rightarrow> jsstring \<Rightarrow> nat \<Rightarrow> nat \<Rightarrow> book \<Rightarrow> counters \<Rightarrow> event list
     \<Rightarrow> (error option \<times> counters \<times> event list) option" where
  "syncBook R dbId i n bk c tr =
     (let tr0 = tr @ [Progress (i + 1) n (Some (title bk)) (newHighlights c),
                      Log (LogStart (i + 1) n (substring0 (title bk) 35))]
      in case (if title bk \<noteq> [] then findBookByTitle R dbId (title bk) tr0
               else (Inr None, tr0)) of
           (Inl e, tr1) \<Rightarrow> Some (Some e, c, tr1)
         | (Inr (Some pg), tr1) \<Rightarrow>
             map_option (finishBook i n) (syncExistingBook R dbId pg bk c tr1)
         | (Inr None, tr1) \<Rightarrow> Some (finishBook i n (syncNewBook R dbId bk c tr1)))"

text \<open>
  The loop over the books: an error thrown for a book is caught, logged with the
  first 30 code units of the title, and the loop goes on with the next book.
\<close>

fun syncLoop ::
  "remote \<Rightarrow> jsstring \<Rightarrow> nat \<Rightarrow> nat \<Rightarrow> book list \<Rightarrow> counters \<Rightarrow> event list
     \<Rightarrow> (counters \<times> event list) option" where
  "syncLoop R dbId n i [] c tr = Some (c, tr)"
| "syncLoop R dbId n i (bk # rest) c tr =
     (case syncBook R dbId i n bk c tr of
        None \<Rightarrow> None
      | Some (None, c1, tr1) \<Rightarrow> syncLoop R dbId n (i + 1) rest c1 tr1
      | Some (Some e, c1, tr1) \<Rightarrow>
          syncLoop R dbId n (i + 1) rest c1
            (tr1 @ [Log (LogError (substring0 (title bk) 30) e)]))"

definition syncBooksToNotion ::
  "settings \<Rightarrow> remote \<Rightarrow> book list \<Rightarrow> event list
     \<Rightarrow> ((error + syncResult) \<times> event list) option" where
  "syncBooksToNotion st R books tr =
     (case databaseId st of
        None \<Rightarrow> Some (Inl NotConfigured, tr)
      | Some dbId \<Rightarrow>
          if \<not> truthy (notionToken st) \<or> dbId = [] then Some (Inl NotConfigured, tr)
          else
            (case syncLoop R dbId (length books) 0 books
                    \<lparr>newBooks = 0, newHighlights = 0, updatedBooks = 0\<rparr> tr of
               None \<Rightarrow> None
             | Some (c, tr1) \<Rightarrow>
                 Some (Inr \<lparr>newBooks = newBooks c, newHighlights = newHighlights c,
                             updatedBooks = updatedBooks c, success = True,
                             totalProcessed = length books\<rparr>, tr1)))"

section \<open>The candidate planner (\<open>extractAllBooksAuto\<close>)\<close>

text \<open>
  A count mapping is a plain JavaScript object from strings to numbers: an
  association list of its own properties in the order of its keys, and
  \<open>Object.keys(obj).length\<close> is the length of the list. Counts are integers, and
  \<open>-1\<close> is the live count that could not be read.
\<close>

type_synonym counts = "(jsstring \<times> int) list"

text \<open>
  \<open>obj[k]\<close> on a plain object finds the own property \<open>k\<close> and, when there is
  none, the member \<open>k\<close> of \<open>Object.prototype\<close>: one of its functions, or the
  prototype itself for \<open>__proto__\<close>. Such a value is not \<open>undefined\<close>, it is truthy,
  and it compares with a number as \<open>NaN\<close> does: every comparison is false.
\<close>

datatype jsvalue = Undefined | Num int | Inherited

definition objectPrototypeNames :: "jsstring list" where
  "objectPrototypeNames =
     [js ''constructor'', js ''__defineGetter__'', js ''__defineSetter__'',
      js ''hasOwnProperty'', js ''__lookupGetter__'', js ''__lookupSetter__'',
      js ''isPrototypeOf'', js ''propertyIsEnumerable'', js ''toString'', js ''valueOf'',
      js ''__proto__'', js ''toLocaleString'']"

definition getProp :: "counts \<Rightarrow> jsstring \<Rightarrow> jsvalue" where
  "getProp obj k =
     (case map_of obj k of
        Some v \<Rightarrow> Num v
      | None \<Rightarrow> if k \<in> set objectPrototypeNames then Inherited else Undefined)"

text \<open>\<open>x || 0\<close>, and \<open>k > x\<close> for a number \<open>k\<close>.\<close>

fun orZero :: "jsvalue \<Rightarrow> jsvalue" where
  "orZero Undefined = Num 0"
| "orZero (Num v) = (if v = 0 then Num 0 else Num v)"
| "orZero Inherited = Inherited"

fun greaterThan :: "int \<Rightarrow> jsvalue \<Rightarrow> bool" where
  "greaterThan k (Num v) = (k > v)"
| "greaterThan k x = False"

text \<open>
  \<open>obj[k] = v\<close> for a number \<open>v\<close>: the own property is set, except that the
  assignment to \<open>__proto__\<close> goes to the setter of \<open>Object.prototype\<close>, which ignores
  a number.
\<close>

definition setProp :: "jsstring \<Rightarrow> int \<Rightarrow> counts \<Rightarrow> counts" where
  "setProp k v obj = (if k = js ''__proto__'' then obj else AList.update k v obj)"

text \<open>\<open>{ ...a, ...b }\<close>: the entries of \<open>a\<close>, overwritten and extended by those of \<open>b\<close>.\<close>

definition objectSpread :: "counts \<Rightarrow> counts \<Rightarrow> counts" where
  "objectSpread a b = foldl (\<lambda>m (k, v). AList.update k v m) a b"

text \<open>
  What the first pass reads from a book container of the library: the trimmed text
  of its \<open>h2\<close> (\<open>None\<close> when it has none) and the number that the highlight pattern
  matches in its text (\<open>None\<close> when nothing matches).
\<close>

record container =
  heading :: "jsstring option"
  highlightMatch :: "nat option"

function decimal :: "nat \<Rightarrow> jsstring" where
  "decimal n = (if n < 10 then [0x30 + n] else decimal (n div 10) @ [0x30 + n mod 10])"
  by pat_completeness auto
termination
  by (relation "measure id") auto

declare decimal.simps [simp del]

definition titleOf :: "nat \<Rightarrow> container \<Rightarrow> jsstring" where
  "titleOf i c = (case heading c of Some t \<Rightarrow> t | None \<Rightarrow> js ''book_'' @ decimal i)"

definition currentHighlightCount :: "container \<Rightarrow> int" where
  "currentHighlightCount c = (case highlightMatch c of Some n \<Rightarrow> int n | None \<Rightarrow> -1)"

text \<open>An element of \<open>booksToProcess\<close>.\<close>

record entry =
  e_index :: nat
  e_title :: jsstring
  e_highlightCount :: int
  e_bookKey :: jsstring

record plan =
  booksToProcess :: "entry list"
  newCounts :: counts
  skippedBooks :: nat

text \<open>
  The decision for one container, and whether it counts as skipped.
  \<open>already\<close> is \<open>booksToProcess.length\<close> when the container is looked at.
\<close>

definition savedCountOf :: "counts \<Rightarrow> counts \<Rightarrow> jsstring \<Rightarrow> jsvalue" where
  "savedCountOf notionCounts savedCounts title' =
     (if notionCounts \<noteq> [] then orZero (getProp notionCounts title')
      else orZero (getProp savedCounts (bookKey title')))"

definition existsInNotion :: "counts \<Rightarrow> jsstring \<Rightarrow> bool" where
  "existsInNotion notionCounts title' \<longleftrightarrow>
     notionCounts \<noteq> [] \<and> getProp notionCounts title' \<noteq> Undefined"

definition shouldProcess ::
  "counts \<Rightarrow> counts \<Rightarrow> nat \<Rightarrow> nat \<Rightarrow> jsstring \<Rightarrow> int \<Rightarrow> bool" where
  "shouldProcess notionCounts savedCounts testBookLimit already title' count =
     (if testBookLimit > 0 then already < testBookLimit
      else if savedCounts = [] then True
      else if existsInNotion notionCounts title' then
        (if count > 0 \<and> greaterThan count (savedCountOf notionCounts savedCounts title')
         then True else False)
      else True)"

definition countsAsSkipped :: "counts \<Rightarrow> counts \<Rightarrow> nat \<Rightarrow> jsstring \<Rightarrow> int \<Rightarrow> bool" where
  "countsAsSkipped notionCounts savedCounts testBookLimit title' count \<longleftrightarrow>
     \<not> testBookLimit > 0 \<and> savedCounts \<noteq> [] \<and> existsInNotion notionCounts title'
     \<and> \<not> (count > 0 \<and> greaterThan count (savedCountOf notionCounts savedCounts title'))"

definition planStep :: "counts \<Rightarrow> counts \<Rightarrow> nat \<Rightarrow> nat \<Rightarrow> container \<Rightarrow> plan \<Rightarrow> plan" where
  "planStep notionCounts savedCounts testBookLimit i c p =
     (let title' = titleOf i c;
          count = currentHighlightCount c;
          key = bookKey title'
      in \<lparr>booksToProcess =
            (if shouldProcess notionCounts savedCounts testBookLimit
                  (length (booksToProcess p)) title' count
             then booksToProcess p @
                    [\<lparr>e_index = i, e_title = title', e_highlightCount = count, e_bookKey = key\<rparr>]
             else booksToProcess p),
          newCounts = (if count > 0 then setProp key count (newCounts p) else newCounts p),
          skippedBooks =
            (if countsAsSkipped notionCounts savedCounts testBookLimit title' count
             then skippedBooks p + 1 else skippedBooks p)\<rparr>)"

fun firstPass :: "counts \<Rightarrow> counts \<Rightarrow> nat \<Rightarrow> nat \<Rightarrow> container list \<Rightarrow> plan \<Rightarrow> plan" where
  "firstPass notionCounts savedCounts testBookLimit i [] p = p"
| "firstPass notionCounts savedCounts testBookLimit i (c # cs) p =
     firstPass notionCounts savedCounts testBookLimit (Suc i) cs
       (planStep notionCounts savedCounts testBookLimit i c p)"

text \<open>
  The plan of a run over a library that is not empty: the counts to compare with are
  those of Notion when there are any and the local cache otherwise; after the first
  pass the list is cut to the test limit and, in test mode, the number of skipped
  books is counted again.
\<close>

definition comparedCounts :: "counts \<Rightarrow> counts \<Rightarrow> counts" where
  "comparedCounts notionCounts localCache =
     (if notionCounts \<noteq> [] then notionCounts else localCache)"

definition planBooks :: "counts \<Rightarrow> counts \<Rightarrow> nat \<Rightarrow> container list \<Rightarrow> plan" where
  "planBooks notionCounts localCache testBookLimit bookContainers =
     (let savedCounts = comparedCounts notionCounts localCache;
          p = firstPass notionCounts savedCounts testBookLimit 0 bookContainers
                \<lparr>booksToProcess = [], newCounts = [], skippedBooks = 0\<rparr>;
          books = (if testBookLimit > 0 \<and> length (booksToProcess p) > testBookLimit
                   then take testBookLimit (booksToProcess p) else booksToProcess p)
      in p\<lparr>booksToProcess := books,
           skippedBooks := (if testBookLimit > 0 then length bookContainers - length books
                            else skippedBooks p)\<rparr>)"

text \<open>
  What \<open>bookHighlightCounts\<close> in local storage holds after a run of
  \<open>extractAllBooksAuto\<close>. A page without book containers returns before anything is
  saved; a write that throws is caught and leaves the storage as it was. The second
  pass, which opens the selected books one by one, assigns neither \<open>savedCounts\<close> nor
  \<open>newCounts\<close> and catches what is thrown for a book, so it is left out here.
\<close>

definition cacheAfterRun :: "counts \<Rightarrow> counts \<Rightarrow> nat \<Rightarrow> container list \<Rightarrow> bool \<Rightarrow> counts" where
  "cacheAfterRun notionCounts localCache testBookLimit bookContainers writeOk =
     (if length bookContainers = 0 then localCache
      else
        (let savedCounts = comparedCounts notionCounts localCache;
             p = planBooks notionCounts localCache testBookLimit bookContainers;
             mergedCounts = objectSpread savedCounts (newCounts p)
         in if writeOk then mergedCounts else localCache))"

text \<open>
  The same for \<open>extractAllBooksAutoWithProgress\<close>, which always reads the local
  cache. Of its first pass only the counts it collects matter here: the count of every
  container whose count is positive, under the key of its title.
\<close>

fun collectCounts :: "nat \<Rightarrow> container list \<Rightarrow> counts \<Rightarrow> counts" where
  "collectCounts i [] newCounts' = newCounts'"
| "collectCounts i (c # cs) newCounts' =
     collectCounts (Suc i) cs
       (if currentHighlightCount c > 0
        then setProp (bookKey (titleOf i c)) (currentHighlightCount c) newCounts'
        else newCounts')"

definition cacheAfterRunWithProgress :: "counts \<Rightarrow> container list \<Rightarrow> bool \<Rightarrow> counts" where
  "cacheAfterRunWithProgress localCache bookContainers writeOk =
     (if length bookContainers = 0 then localCache
      else
        (let mergedCounts = objectSpread localCache (collectCounts 0 bookContainers [])
         in if writeOk then mergedCounts else localCache))"

section \<open>Notions used to state the properties\<close>

text \<open>
  The batches the specification speaks of: a list cut into consecutive pieces of 100,
  the last one possibly shorter, and a list with a separator between neighbours.
\<close>

definition batches :: "'a list \<Rightarrow> 'a list list" where
  "batches xs = map (\<lambda>k. take 100 (drop (k * 100) xs)) [0 ..< (length xs + 99) div 100]"

fun intersperse :: "'a \<Rightarrow> 'a list \<Rightarrow> 'a list" where
  "intersperse d [] = []"
| "intersperse d [x] = [x]"
| "intersperse d (x # y # ys) = x # d # intersperse d (y # ys)"

fun isRequest :: "event \<Rightarrow> bool" where
  "isRequest (Request r) = True"
| "isRequest ev = False"

fun isDelay :: "event \<Rightarrow> bool" where
  "isDelay (Delay ms) = True"
| "isDelay ev = False"

text \<open>The remote accepts every append to the page, whatever happened before.\<close>

definition appendsOk :: "remote \<Rightarrow> jsstring \<Rightarrow> bool" where
  "appendsOk R pageId \<longleftrightarrow> (\<forall>tr batch. r_append R tr pageId batch = Inr ())"

text \<open>
  The listings of the remote are finite: there is a measure on cursors such that every
  answer that announces more blocks names a cursor of smaller measure than the cursor
  it answers. This speaks of the answers of the remote only.
\<close>

definition listingEnds :: "remote \<Rightarrow> bool" where
  "listingEnds R \<longleftrightarrow>
     (\<exists>m :: jsstring option \<Rightarrow> nat. \<forall>tr pageId cursor response.
        r_children R tr pageId cursor = Inr response \<and> has_more response
          \<and> truthy (next_cursor response)
        \<longrightarrow> m (next_cursor response) < m cursor)"

text \<open>Every call of \<open>getExistingHighlights\<close> returns.\<close>

definition paginationEnds :: "remote \<Rightarrow> bool" where
  "paginationEnds R \<longleftrightarrow> (\<forall>pageId tr. getExistingHighlights R pageId tr \<noteq> None)"

text \<open>
  What the specification asks of the loop over the books, stated on the body of the
  \<open>try\<close> (\<open>syncBook\<close>): the books are taken one by one in order, each from the
  counters and events that the one before left; \<open>outs\<close> lists what each book threw,
  if anything; and an error that was thrown is logged with the first 30 code units of
  the title before the next book is taken. \<open>c'\<close> and \<open>tr'\<close> are the counters and events
  after the last book.
\<close>

fun bookByBook ::
  "remote \<Rightarrow> jsstring \<Rightarrow> nat \<Rightarrow> nat \<Rightarrow> book list \<Rightarrow> counters \<Rightarrow> event list
     \<Rightarrow> error option list \<Rightarrow> counters \<Rightarrow> event list \<Rightarrow> bool" where
  "bookByBook R dbId n i [] c tr outs c' tr' = (outs = [] \<and> c' = c \<and> tr' = tr)"
| "bookByBook R dbId n i (bk # rest) c tr outs c' tr' =
     (case outs of
        [] \<Rightarrow> False
      | out # outs' \<Rightarrow>
          (case syncBook R dbId i n bk c tr of
             None \<Rightarrow> False
           | Some (thrown, c1, tr1) \<Rightarrow>
               thrown = out \<and>
               bookByBook R dbId n (Suc i) rest c1
                 (case thrown of
                    None \<Rightarrow> tr1
                  | Some e \<Rightarrow> tr1 @ [Log (LogError (substring0 (title bk) 30) e)])
                 outs' c' tr'))"


text \<open>
  What a run of the sync tells about each book: the progress message that opens its
  turn, the progress message that closes a turn in which nothing was thrown, and the
  error entry that the \<open>catch\<close> logs. \<open>report k books outcomes\<close> is what the events
  say when the books are taken in order, numbered from \<open>k\<close>, each with its outcome.
\<close>

datatype mark = Started nat jsstring | Completed nat | Failed jsstring error

fun bookMark :: "event \<Rightarrow> mark list" where
  "bookMark (Progress cur tot (Some t) h) = [Started cur t]"
| "bookMark (Progress cur tot None h) = [Completed cur]"
| "bookMark (Log (LogError t e)) = [Failed t e]"
| "bookMark ev = []"

definition outline :: "event list \<Rightarrow> mark list" where
  "outline tr = concat (map bookMark tr)"

fun report :: "nat \<Rightarrow> book list \<Rightarrow> error option list \<Rightarrow> mark list" where
  "report k (bk # bks) (out # outs) =
     Started k (title bk)
     # (case out of None \<Rightarrow> Completed k | Some e \<Rightarrow> Failed (substring0 (title bk) 30) e)
     # report (Suc k) bks outs"
| "report k bks outs = []"

definition quiet :: "event list \<Rightarrow> event list \<Rightarrow> bool" where
  "quiet tr tr' \<longleftrightarrow> (\<exists>evs. tr' = tr @ evs \<and> outline evs = [])"

text \<open>Two remotes to run the client against: one rejects and one accepts everything.\<close>

definition rejectingRemote :: remote where
  "rejectingRemote =
     \<lparr>r_database = (\<lambda>tr d. Inl (ApiError (js ''rejected''))),
      r_query = (\<lambda>tr d p t. Inl (ApiError (js ''rejected''))),
      r_create = (\<lambda>tr d ps. Inl (ApiError (js ''rejected''))),
      r_update = (\<lambda>tr p ps. Inl (ApiError (js ''rejected''))),
      r_children = (\<lambda>tr p c. Inl (ApiError (js ''rejected''))),
      r_append = (\<lambda>tr p bs. Inl (ApiError (js ''rejected'')))\<rparr>"

definition acceptingRemote :: remote where
  "acceptingRemote =
     \<lparr>r_database = (\<lambda>tr d. Inr [(js ''Name'', js ''title'')]),
      r_query = (\<lambda>tr d p t. Inr []),
      r_create = (\<lambda>tr d ps. Inr \<lparr>page_id = js ''page''\<rparr>),
      r_update = (\<lambda>tr p ps. Inr \<lparr>page_id = p\<rparr>),
      r_children = (\<lambda>tr p c. Inr \<lparr>results = [], has_more = False, next_cursor = None\<rparr>),
      r_append = (\<lambda>tr p bs. Inr ())\<rparr>"

text \<open>Books and settings to run the sync on.\<close>

definition bookA :: book where
  "bookA = \<lparr>title = js ''A'', author = [], amazonUrl = [], coverUrl = [], highlights = []\<rparr>"

definition bookB :: book where
  "bookB = \<lparr>title = js ''B'', author = [], amazonUrl = [], coverUrl = [],
             highlights = [\<lparr>htext = js ''so it goes'', location = js ''12''\<rparr>]\<rparr>"

definition bookOld :: book where
  "bookOld = \<lparr>title = js ''A'', author = [], amazonUrl = [], coverUrl = [],
               highlights = [\<lparr>htext = js ''new thought'', location = []\<rparr>]\<rparr>"

definition configured :: settings where
  "configured = \<lparr>notionToken = Some (js ''secret''), databaseId = Some (js ''db'')\<rparr>"

text \<open>
  A remote that knows the book "A", lists the blocks of its page in two answers and
  rejects every append to that page; everything else it accepts.
\<close>

definition pagedRemote :: remote where
  "pagedRemote =
     \<lparr>r_database = (\<lambda>tr d. Inr [(js ''Name'', js ''title'')]),
      r_query = (\<lambda>tr d p t. if t = js ''A'' then Inr [\<lparr>page_id = js ''pageA''\<rparr>] else Inr []),
      r_create = (\<lambda>tr d ps. Inr \<lparr>page_id = js ''pageB''\<rparr>),
      r_update = (\<lambda>tr p ps. Inr \<lparr>page_id = p\<rparr>),
      r_children = (\<lambda>tr p c.
         if c = None
         then Inr \<lparr>results = [Quote [js ''old'']], has_more = True, next_cursor = Some (js ''c1'')\<rparr>
         else Inr \<lparr>results = [Callout [js ''older'']], has_more = False, next_cursor = None\<rparr>),
      r_append = (\<lambda>tr p bs. if p = js ''pageA'' then Inl (ApiError (js ''rejected''))
                               else Inr ())\<rparr>"

definition queryFailingRemote :: remote where
  "queryFailingRemote = acceptingRemote\<lparr>r_query := (\<lambda>tr d p t. Inl (ApiError (js ''timeout'')))\<rparr>"

definition foxStored :: jsstring where
  "foxStored = js ''The quick brown fox jumps over the lazy dog and keeps running far away''"

definition foxAgain :: highlight where
  "foxAgain = \<lparr>htext = js ''The quick brown fox jumps over the lazy dog and keeps walking'',
                location = js ''100''\<rparr>"

definition journey :: highlight where
  "journey = \<lparr>htext = js ''A journey of a thousand miles begins with one step'',
               location = []\<rparr>"

text \<open>The containers that a plan selects, by their position in the library.\<close>

definition selectedIndices :: "plan \<Rightarrow> nat set" where
  "selectedIndices p = e_index ` set (booksToProcess p)"

text \<open>Containers to run the planner on.\<close>

definition duneUnread :: container where
  "duneUnread = \<lparr>heading = Some (js ''Dune''), highlightMatch = Some 0\<rparr>"

definition duneGrown :: container where
  "duneGrown = \<lparr>heading = Some (js ''Dune''), highlightMatch = Some 12\<rparr>"

definition duneUnknown :: container where
  "duneUnknown = \<lparr>heading = Some (js ''Dune''), highlightMatch = None\<rparr>"

definition constructorBook :: container where
  "constructorBook = \<lparr>heading = Some (js ''constructor''), highlightMatch = Some 3\<rparr>"

definition emmaUnknown :: container where
  "emmaUnknown = \<lparr>heading = Some (js ''Emma''), highlightMatch = None\<rparr>"

section \<open>Facts about strings\<close>

lemmas string_eval = js_def substring0_def isWhiteSpace_def trim_def

lemma str_includes_sublist: "str_includes s t \<longleftrightarrow> sublist t s"
  by (induction s) (simp_all add: sublist_Cons_right)

lemma filter_take_filter: "filter P (take n (filter P xs)) = take n (filter P xs)"
  by (auto simp: filter_id_conv dest: in_set_takeD)

section \<open>Normalization is idempotent\<close>

lemma normalizeTitle_idem: "normalizeTitle (normalizeTitle s) = normalizeTitle s"
  by (simp add: normalizeTitle_def substring0_def filter_take_filter)

lemma bookKey_idem: "bookKey (bookKey t) = bookKey t"
  by (simp add: bookKey_def substring0_def take_map isKeyChar_def)

text \<open>
  Claim C8. Both normalizations are functions of the title alone, and applying one
  twice gives what applying it once gives: the title normalization of the readiness
  detector (delete white space, punctuation and delimiters, keep 30 code units) and
  the cache key (keep 50 code units, replace every code unit that is not a letter, a
  digit, kana or a CJK ideograph by an underscore).
\<close>

theorem normalization_idempotent:
  "normalizeTitle (normalizeTitle s) = normalizeTitle s \<and> bookKey (bookKey t) = bookKey t"
  by (simp add: normalizeTitle_idem bookKey_idem)

section \<open>The title signal of the readiness detector\<close>

lemmas title_eval = string_eval normalizeTitle_def isStripped_def splitTitle_def
  isDelimiter_def setAdd_def expectedVariants_def matchesExpected_def

lemma set_setAdd: "set (setAdd vs v) = insert v (set vs)"
  by (auto simp: setAdd_def)

lemma set_foldl_setAdd:
  "set (foldl (\<lambda>vs part. setAdd vs (f part)) vs0 ps) = set vs0 \<union> f ` set ps"
  by (induction ps arbitrary: vs0) (auto simp: set_setAdd)

lemma set_expectedVariants:
  "set (expectedVariants e) =
     {normalizeTitle e} \<union> normalizeTitle ` set (splitTitle e)
     \<union> (if length (normalizeTitle e) > 10 then {take 10 (normalizeTitle e)} else {})
     \<union> (if length (normalizeTitle e) > 15 then {take 15 (normalizeTitle e)} else {})"
  by (auto simp: expectedVariants_def Let_def set_setAdd set_foldl_setAdd substring0_def)

lemma matchesLoop_iff:
  "matchesLoop norm vs \<longleftrightarrow>
     (\<exists>v\<in>set vs. v \<noteq> [] \<and> (str_includes norm v \<or> str_includes v norm))"
  by (induction vs) auto

lemma matchesExpected_iff:
  "matchesExpected e cur \<longleftrightarrow>
     cur \<noteq> [] \<and> (\<exists>v\<in>set (expectedVariants e). v \<noteq> [] \<and>
        (sublist v (normalizeTitle cur) \<or> sublist (normalizeTitle cur) v))"
  by (simp add: matchesExpected_def matchesLoop_iff str_includes_sublist)

lemma waitForTitleUpdate_title:
  assumes "matchesExpected e (panelTitle ob)" and "ob \<in> set (first # later)"
  shows "waitForTitleUpdate e first later"
proof -
  have "isReady e (signature first) ob"
    using assms(1) by (simp add: isReady_def)
  with assms(2) show ?thesis
    unfolding waitForTitleUpdate_def list_ex_iff by (auto simp del: set_simps)
qed

lemma atomic_habits_matches:
  "matchesExpected (js ''Atomic Habits: An Easy Way...'') (js ''Atomic Habits'')"
  by (simp add: title_eval)

text \<open>
  Claim C7, as the code has it. The variants of the expected title are its normalized
  form, the normalized form of every piece that \<open>splitTitle\<close> returns, and the prefixes
  of 10 and of 15 code units of the normalized form, each only when the normalized form
  is longer. The title signal fires when the panel title is not empty and its
  normalized form contains, or is contained in, a variant that is not empty; the
  detector then answers \<open>true\<close> at whichever reading of the page shows such a title.
  The expected title "Atomic Habits: An Easy Way..." matches the panel title
  "Atomic Habits".
\<close>

theorem readiness_title_signal:
  "set (expectedVariants e) =
     {normalizeTitle e} \<union> normalizeTitle ` set (splitTitle e)
     \<union> (if length (normalizeTitle e) > 10 then {take 10 (normalizeTitle e)} else {})
     \<union> (if length (normalizeTitle e) > 15 then {take 15 (normalizeTitle e)} else {})
   \<and> (matchesExpected e cur \<longleftrightarrow>
        cur \<noteq> [] \<and> (\<exists>v\<in>set (expectedVariants e). v \<noteq> [] \<and>
          (sublist v (normalizeTitle cur) \<or> sublist (normalizeTitle cur) v)))
   \<and> (matchesExpected e (panelTitle ob) \<and> ob \<in> set (first # later)
        \<longrightarrow> waitForTitleUpdate e first later)
   \<and> matchesExpected (js ''Atomic Habits: An Easy Way...'') (js ''Atomic Habits'')"
  using set_expectedVariants [of e] matchesExpected_iff [of e cur]
    waitForTitleUpdate_title [of e ob first later] atomic_habits_matches
  by blast

text \<open>
  The theorem at the expected title "Dune: Part One" and a page whose panel first shows
  another book and then "Dune".
\<close>

theorem readiness_title_signal_witness:
  "matchesExpected (js ''Dune: Part One'') (js ''Dune'')
   \<and> \<lparr>panelTitle = js ''Dune'', signature = [], selected = False\<rparr>
       \<in> set [\<lparr>panelTitle = js ''Emma'', signature = [], selected = False\<rparr>,
               \<lparr>panelTitle = js ''Dune'', signature = [], selected = False\<rparr>]
   \<and> waitForTitleUpdate (js ''Dune: Part One'')
       \<lparr>panelTitle = js ''Emma'', signature = [], selected = False\<rparr>
       [\<lparr>panelTitle = js ''Dune'', signature = [], selected = False\<rparr>]
   \<and> js ''Dune'' \<in> set (expectedVariants (js ''Dune: Part One''))
   \<and> sublist (js ''Dune'') (normalizeTitle (js ''Dune''))"
proof -
  have m: "matchesExpected (js ''Dune: Part One'') (js ''Dune'')"
    by (simp add: title_eval)
  have v: "js ''Dune'' \<in> set (expectedVariants (js ''Dune: Part One''))"
    by (simp add: title_eval)
  have s: "sublist (js ''Dune'') (normalizeTitle (js ''Dune''))"
    by (simp add: title_eval)
  show ?thesis
    using m v s
      readiness_title_signal [of "js ''Dune: Part One''" "js ''Dune''"
        "\<lparr>panelTitle = js ''Dune'', signature = [], selected = False\<rparr>"
        "\<lparr>panelTitle = js ''Emma'', signature = [], selected = False\<rparr>"
        "[\<lparr>panelTitle = js ''Dune'', signature = [], selected = False\<rparr>]"]
    by simp
qed

text \<open>
  The claim as written (any variant, any panel title) fails: the expected title
  "Hello: !" has the empty string among its variants, which every panel title
  contains, and yet the panel title "Dune" does not match and the detector, with no
  other signal, answers \<open>false\<close>.
\<close>

theorem readiness_any_variant_counterexample:
  "[] \<in> set (expectedVariants (js ''Hello: !''))
   \<and> str_includes (normalizeTitle (js ''Dune'')) []
   \<and> \<not> matchesExpected (js ''Hello: !'') (js ''Dune'')
   \<and> \<not> waitForTitleUpdate (js ''Hello: !'')
         \<lparr>panelTitle = js ''Dune'', signature = [], selected = False\<rparr> []"
  by (simp add: title_eval waitForTitleUpdate_def isReady_def)

section \<open>The batch committer\<close>

lemma ceil_less: "j < (n + 99) div 100 \<longleftrightarrow> j * 100 < (n::nat)"
  by arith

lemma loop_done:
  "\<not> i < length ch \<Longrightarrow> addHighlightBlocksLoop R pageId ch i tr = (Inr (), tr)"
  by (subst addHighlightBlocksLoop.simps) simp

lemma loop_fail:
  "i < length ch \<Longrightarrow> r_append R tr pageId (take batchSize (drop i ch)) = Inl e \<Longrightarrow>
   addHighlightBlocksLoop R pageId ch i tr =
     (Inl e, tr @ [Request (AppendChildren pageId (take batchSize (drop i ch)))])"
  by (subst addHighlightBlocksLoop.simps) (simp add: Let_def)

lemma loop_step:
  "i < length ch \<Longrightarrow> r_append R tr pageId (take batchSize (drop i ch)) = Inr u \<Longrightarrow>
   addHighlightBlocksLoop R pageId ch i tr =
     addHighlightBlocksLoop R pageId ch (i + batchSize)
       (tr @ Request (AppendChildren pageId (take batchSize (drop i ch)))
           # (if i + batchSize < length ch then [Delay 350] else []))"
  by (subst addHighlightBlocksLoop.simps) (simp add: Let_def)

lemma loop_ok:
  assumes ok: "appendsOk R pageId"
  shows "N = (length ch + 99) div 100 \<Longrightarrow> j \<le> N \<Longrightarrow>
    addHighlightBlocksLoop R pageId ch (j * 100) tr =
      (Inr (), tr @ intersperse (Delay 350)
         (map (\<lambda>k. Request (AppendChildren pageId (take 100 (drop (k * 100) ch)))) [j ..< N]))"
proof (induction "N - j" arbitrary: j tr)
  case 0
  then have "j = N" by simp
  with 0 have "\<not> j * 100 < length ch" using ceil_less[of j "length ch"] by simp
  then show ?case using \<open>j = N\<close> by (simp add: loop_done)
next
  case (Suc d)
  then have jN: "j < N" by simp
  with Suc have lt: "j * 100 < length ch" using ceil_less[of j "length ch"] by simp
  have ap: "r_append R tr pageId (take batchSize (drop (j * 100) ch)) = Inr ()"
    using ok by (simp add: appendsOk_def)
  have d: "d = N - Suc j" using Suc by simp
  have sj: "Suc j \<le> N" using jN by simp
  have up: "[j ..< N] = j # [Suc j ..< N]" using jN by (simp add: upt_conv_Cons)
  have nxt: "j * 100 + batchSize = Suc j * 100" by (simp add: batchSize_def)
  note IH = Suc.hyps(1)[OF d Suc.prems(1) sj]
  note step = loop_step[OF lt ap, unfolded nxt]
  show ?case
  proof (cases "Suc j < N")
    case True
    then have lt2: "Suc j * 100 < length ch"
      using ceil_less[of "Suc j" "length ch"] Suc.prems(1) by simp
    have up2: "[Suc j ..< N] = Suc j # [Suc (Suc j) ..< N]"
      using True by (simp add: upt_conv_Cons)
    show ?thesis
      unfolding step IH up up2 using lt2 by (simp add: batchSize_def)
  next
    case False
    then have e: "[Suc j ..< N] = []" using jN by simp
    have nlt2: "\<not> Suc j * 100 < length ch"
      using ceil_less[of "Suc j" "length ch"] Suc.prems(1) False by simp
    show ?thesis
      unfolding step IH up e using nlt2 by (simp add: batchSize_def)
  qed
qed

lemma concat_batches_take:
  "concat (map (\<lambda>k. take m (drop (k * m) xs)) [0 ..< N]) = take (N * m) xs"
proof (induction N)
  case 0
  show ?case by simp
next
  case (Suc N)
  have "take (N * m) xs @ take m (drop (N * m) xs) = take (N * m + m) xs"
    by (simp only: take_add)
  with Suc show ?case by (simp add: add.commute)
qed

lemma concat_batches: "concat (batches xs) = xs"
proof -
  have "length xs \<le> (length xs + 99) div 100 * 100" by arith
  then show ?thesis
    unfolding batches_def concat_batches_take by (rule take_all)
qed


lemma count_requests:
  "length (filter isRequest (intersperse (Delay ms) (map (\<lambda>b. Request (f b)) bs))) = length bs"
  by (induction bs rule: induct_list012) simp_all

lemma count_delays:
  "length (filter isDelay (intersperse (Delay ms) (map (\<lambda>b. Request (f b)) bs)))
     = length bs - 1"
  by (induction bs rule: induct_list012) simp_all

section \<open>What the client adds to the events\<close>

lemma outline_Nil [simp]: "outline [] = []"
  by (simp add: outline_def)

lemma outline_Cons [simp]: "outline (ev # evs) = bookMark ev @ outline evs"
  by (simp add: outline_def)

lemma outline_append [simp]: "outline (xs @ ys) = outline xs @ outline ys"
  by (simp add: outline_def)

lemma quiet_refl [simp]: "quiet tr tr"
  by (simp add: quiet_def)

lemma quiet_append [simp]: "quiet tr (tr @ evs) \<longleftrightarrow> outline evs = []"
  by (simp add: quiet_def)

lemma quiet_trans: "quiet a b \<Longrightarrow> quiet b c \<Longrightarrow> quiet a c"
  by (auto simp: quiet_def)

lemma quiet_snoc: "quiet a b \<Longrightarrow> outline evs = [] \<Longrightarrow> quiet a (b @ evs)"
  by (auto simp: quiet_def)

lemma quiet_outline: "quiet tr tr' \<Longrightarrow> outline tr' = outline tr"
  by (auto simp: quiet_def)

lemma quiet_getDatabase: "quiet tr (snd (getDatabase R dbId tr))"
  by (simp add: getDatabase_def)

lemma quiet_findBookByTitle: "quiet tr (snd (findBookByTitle R dbId t tr))"
  by (simp add: findBookByTitle_def getDatabase_def Let_def split: sum.splits list.splits)

lemma quiet_createBookPage: "quiet tr (snd (createBookPage R dbId bk tr))"
  by (simp add: createBookPage_def getDatabase_def Let_def split: sum.splits)

lemma quiet_updateBookPage: "quiet tr (snd (updateBookPage R pid hc dbId tr))"
  by (simp add: updateBookPage_def getDatabase_def Let_def split: sum.splits)

lemma quiet_addLoop: "quiet tr (snd (addHighlightBlocksLoop R pid ch i tr))"
proof (induction R pid ch i tr rule: addHighlightBlocksLoop.induct)
  case (1 R pageId children i tr)
  show ?case
  proof (cases "i < length children")
    case False
    then show ?thesis by (subst addHighlightBlocksLoop.simps) simp
  next
    case True
    let ?batch = "take batchSize (drop i children)"
    let ?tr1 = "tr @ [Request (AppendChildren pageId ?batch)]"
    have q1: "quiet tr ?tr1" by simp
    show ?thesis
    proof (cases "r_append R tr pageId ?batch")
      case (Inl e)
      then show ?thesis using True q1
        by (subst addHighlightBlocksLoop.simps) (simp add: Let_def)
    next
      case (Inr u)
      let ?tr2 = "if i + batchSize < length children then ?tr1 @ [Delay 350] else ?tr1"
      have q2: "quiet tr ?tr2" by simp
      have "quiet ?tr2 (snd (addHighlightBlocksLoop R pageId children (i + batchSize) ?tr2))"
        using "1.IH"[OF True refl refl Inr] .
      with q2 have "quiet tr (snd (addHighlightBlocksLoop R pageId children (i + batchSize) ?tr2))"
        by (rule quiet_trans)
      then show ?thesis using True Inr
        by (subst addHighlightBlocksLoop.simps) (simp add: Let_def)
    qed
  qed
qed

lemma quiet_addHighlightBlocks: "quiet tr (snd (addHighlightBlocks R pid hs tr))"
  by (simp add: addHighlightBlocks_def quiet_addLoop)

lemma quiet_getLoop:
  assumes major: "getExistingHighlightsLoop R pid cursor acc tr = Some y"
  shows "quiet tr (snd y)"
proof (induction R pid cursor acc tr y rule: getExistingHighlightsLoop.raw_induct)
  case (1 f R pid cursor acc tr y)
  let ?c = "if truthy cursor then cursor else None"
  let ?tr1 = "tr @ [Request (GetChildren pid ?c)]"
  have q1: "quiet tr ?tr1" by simp
  show ?case
  proof (cases "r_children R tr pid ?c")
    case (Inl e)
    with "1.hyps" q1 show ?thesis by auto
  next
    case (Inr response)
    show ?thesis
    proof (cases "truthy (if has_more response then next_cursor response else None)")
      case True
      with "1.hyps" Inr have
        "f R pid (next_cursor response) (acc @ blockTexts (results response)) ?tr1 = Some y"
        by simp
      then have "quiet ?tr1 (snd y)" by (rule "1.IH")
      with q1 show ?thesis by (rule quiet_trans)
    next
      case False
      with "1.hyps" Inr q1 show ?thesis by auto
    qed
  qed
qed (rule major)

lemma quiet_getExistingHighlights:
  "getExistingHighlights R pid tr = Some y \<Longrightarrow> quiet tr (snd y)"
  unfolding getExistingHighlights_def by (rule quiet_getLoop)


lemma quiet_findBookByTitle':
  "findBookByTitle R dbId t tr = (r, tr') \<Longrightarrow> quiet tr tr'"
  using quiet_findBookByTitle[of tr R dbId t] by simp

lemma quiet_createBookPage':
  "createBookPage R dbId bk tr = (r, tr') \<Longrightarrow> quiet tr tr'"
  using quiet_createBookPage[of tr R dbId bk] by simp

lemma quiet_updateBookPage':
  "updateBookPage R pid hc dbId tr = (r, tr') \<Longrightarrow> quiet tr tr'"
  using quiet_updateBookPage[of tr R pid hc dbId] by simp

lemma quiet_addHighlightBlocks':
  "addHighlightBlocks R pid hs tr = (r, tr') \<Longrightarrow> quiet tr tr'"
  using quiet_addHighlightBlocks[of tr R pid hs] by simp

lemma quiet_getExistingHighlights':
  "getExistingHighlights R pid tr = Some (r, tr') \<Longrightarrow> quiet tr tr'"
  using quiet_getExistingHighlights[of R pid tr "(r, tr')"] by simp

lemma quiet_syncExistingBook:
  assumes "syncExistingBook R dbId pg bk c tr = Some (eo, c', tr')"
  shows "quiet tr tr'"
proof -
  obtain r tr1 where g: "getExistingHighlights R (page_id pg) tr = Some (r, tr1)"
    using assms by (auto simp: syncExistingBook_def split: option.splits)
  have q1: "quiet tr tr1" using g by (rule quiet_getExistingHighlights')
  show ?thesis
  proof (cases r)
    case (Inl e)
    with assms g q1 show ?thesis by (simp add: syncExistingBook_def)
  next
    case (Inr ex)
    let ?new = "newHighlightsList ex (highlights bk)"
    show ?thesis
    proof (cases "length ?new > 0")
      case False
      with assms g Inr q1 show ?thesis
        by (auto simp: syncExistingBook_def Let_def intro: quiet_snoc)
    next
      case True
      obtain r2 tr2 where a: "addHighlightBlocks R (page_id pg) ?new tr1 = (r2, tr2)"
        by (cases "addHighlightBlocks R (page_id pg) ?new tr1") auto
      have q2: "quiet tr tr2" using q1 quiet_addHighlightBlocks'[OF a] by (rule quiet_trans)
      show ?thesis
      proof (cases r2)
        case (Inl e)
        with assms g Inr True a q2 show ?thesis
          by (simp add: syncExistingBook_def Let_def)
      next
        case r2: (Inr u)
        obtain r3 tr3 where u: "updateBookPage R (page_id pg)
            (Some (length ex + length ?new)) dbId tr2 = (r3, tr3)"
          by (cases "updateBookPage R (page_id pg) (Some (length ex + length ?new)) dbId tr2") auto
        have q3: "quiet tr tr3" using q2 quiet_updateBookPage'[OF u] by (rule quiet_trans)
        from assms g Inr True a r2 u q3 show ?thesis
          by (cases r3) (auto simp: syncExistingBook_def Let_def intro: quiet_snoc)
      qed
    qed
  qed
qed

lemma quiet_syncNewBook:
  assumes "syncNewBook R dbId bk c tr = (eo, c', tr')"
  shows "quiet tr tr'"
proof -
  obtain r tr1 where g: "createBookPage R dbId bk tr = (r, tr1)"
    by (cases "createBookPage R dbId bk tr") auto
  have q1: "quiet tr tr1" using g by (rule quiet_createBookPage')
  show ?thesis
  proof (cases r)
    case (Inl e)
    with assms g q1 show ?thesis by (simp add: syncNewBook_def)
  next
    case (Inr pg)
    show ?thesis
    proof (cases "length (highlights bk) > 0")
      case False
      with assms g Inr q1 show ?thesis
        by (auto simp: syncNewBook_def Let_def intro: quiet_snoc)
    next
      case True
      obtain r2 tr2 where a: "addHighlightBlocks R (page_id pg) (highlights bk) tr1 = (r2, tr2)"
        by (cases "addHighlightBlocks R (page_id pg) (highlights bk) tr1") auto
      have q2: "quiet tr tr2" using q1 quiet_addHighlightBlocks'[OF a] by (rule quiet_trans)
      from assms g Inr True a q2 show ?thesis
        by (cases r2) (auto simp: syncNewBook_def Let_def intro: quiet_snoc)
    qed
  qed
qed


lemma outline_finishBook:
  "finishBook i n (eo, c, tr) = (eo', c', tr') \<Longrightarrow>
   eo' = eo \<and> outline tr' = outline tr @ (case eo of None \<Rightarrow> [Completed (Suc i)] | Some e \<Rightarrow> [])"
  by (cases eo) auto

lemma syncBook_found:
  fixes R dbId i n bk c tr
  defines "tr0 \<equiv> tr @ [Progress (Suc i) n (Some (title bk)) (newHighlights c),
                         Log (LogStart (Suc i) n (substring0 (title bk) 35))]"
  defines "fb \<equiv> (if title bk \<noteq> [] then findBookByTitle R dbId (title bk) tr0
                  else (Inr None, tr0))"
  shows "syncBook R dbId i n bk c tr =
           (case fb of
              (Inl e, tr1) \<Rightarrow> Some (Some e, c, tr1)
            | (Inr (Some pg), tr1) \<Rightarrow>
                map_option (finishBook i n) (syncExistingBook R dbId pg bk c tr1)
            | (Inr None, tr1) \<Rightarrow> Some (finishBook i n (syncNewBook R dbId bk c tr1)))"
    and "quiet tr0 (snd fb)"
proof -
  show "syncBook R dbId i n bk c tr =
           (case fb of
              (Inl e, tr1) \<Rightarrow> Some (Some e, c, tr1)
            | (Inr (Some pg), tr1) \<Rightarrow>
                map_option (finishBook i n) (syncExistingBook R dbId pg bk c tr1)
            | (Inr None, tr1) \<Rightarrow> Some (finishBook i n (syncNewBook R dbId bk c tr1)))"
    unfolding syncBook_def fb_def tr0_def by (simp add: Let_def)
  show "quiet tr0 (snd fb)"
    unfolding fb_def by (simp add: quiet_findBookByTitle)
qed

lemma outline_syncBook:
  assumes "syncBook R dbId i n bk c tr = Some (eo, c', tr')"
  shows "outline tr' = outline tr @ Started (Suc i) (title bk)
           # (case eo of None \<Rightarrow> [Completed (Suc i)] | Some e \<Rightarrow> [])"
proof -
  define tr0 where "tr0 = tr @ [Progress (Suc i) n (Some (title bk)) (newHighlights c),
                         Log (LogStart (Suc i) n (substring0 (title bk) 35))]"
  define fb where "fb = (if title bk \<noteq> [] then findBookByTitle R dbId (title bk) tr0
                  else (Inr None, tr0))"
  note u = syncBook_found[where R=R and dbId=dbId and i=i and n=n and bk=bk and c=c and tr=tr,
      folded tr0_def, folded fb_def]
  have s0: "outline tr0 = outline tr @ [Started (Suc i) (title bk)]" by (simp add: tr0_def)
  obtain r tr1 where f: "fb = (r, tr1)" by (cases fb) auto
  have q1: "quiet tr0 tr1" using u(2) f by simp
  have "outline tr' = outline tr0 @ (case eo of None \<Rightarrow> [Completed (Suc i)] | Some e \<Rightarrow> [])"
  proof (cases r)
    case (Inl e)
    with assms f have "eo = Some e" and "tr' = tr1" by (simp_all add: u(1))
    with quiet_outline[OF q1] show ?thesis by simp
  next
    case (Inr found)
    show ?thesis
    proof (cases found)
      case None
      obtain eo2 c2 tr2 where n: "syncNewBook R dbId bk c tr1 = (eo2, c2, tr2)"
        by (cases "syncNewBook R dbId bk c tr1") auto
      from assms f Inr None n have fin: "finishBook i n (eo2, c2, tr2) = (eo, c', tr')"
        by (simp add: u(1))
      have "quiet tr0 tr2" using q1 quiet_syncNewBook[OF n] by (rule quiet_trans)
      with outline_finishBook[OF fin] quiet_outline[of tr0 tr2] show ?thesis by simp
    next
      case (Some pg)
      from assms f Inr Some obtain eo2 c2 tr2 where
        x: "syncExistingBook R dbId pg bk c tr1 = Some (eo2, c2, tr2)"
        and fin: "finishBook i n (eo2, c2, tr2) = (eo, c', tr')"
        by (auto simp: u(1))
      have "quiet tr0 tr2" using q1 quiet_syncExistingBook[OF x] by (rule quiet_trans)
      with outline_finishBook[OF fin] quiet_outline[of tr0 tr2] show ?thesis by simp
    qed
  qed
  with s0 show ?thesis by simp
qed

lemma outline_syncLoop:
  "syncLoop R dbId n i bks c tr = Some (c', tr') \<Longrightarrow>
   \<exists>outs. length outs = length bks \<and> outline tr' = outline tr @ report (Suc i) bks outs"
proof (induction bks arbitrary: i c tr)
  case Nil
  then show ?case by simp
next
  case (Cons bk rest)
  from Cons.prems obtain eo c1 tr1 where
    b: "syncBook R dbId i n bk c tr = Some (eo, c1, tr1)"
    by (auto split: option.splits)
  note s1 = outline_syncBook[OF b]
  show ?case
  proof (cases eo)
    case None
    with Cons.prems b have "syncLoop R dbId n (Suc i) rest c1 tr1 = Some (c', tr')" by simp
    from Cons.IH[OF this] obtain outs where
      o: "length outs = length rest" "outline tr' = outline tr1 @ report (Suc (Suc i)) rest outs"
      by blast
    with s1 None have "length (None # outs) = length (bk # rest)
        \<and> outline tr' = outline tr @ report (Suc i) (bk # rest) (None # outs)"
      by simp
    then show ?thesis by blast
  next
    case (Some e)
    with Cons.prems b have "syncLoop R dbId n (Suc i) rest c1
        (tr1 @ [Log (LogError (substring0 (title bk) 30) e)]) = Some (c', tr')" by simp
    from Cons.IH[OF this] obtain outs where
      o: "length outs = length rest"
        "outline tr' = outline (tr1 @ [Log (LogError (substring0 (title bk) 30) e)])
           @ report (Suc (Suc i)) rest outs"
      by blast
    with s1 Some have "length (Some e # outs) = length (bk # rest)
        \<and> outline tr' = outline tr @ report (Suc i) (bk # rest) (Some e # outs)"
      by simp
    then show ?thesis by blast
  qed
qed

lemma syncExistingBook_returns:
  "paginationEnds R \<Longrightarrow> syncExistingBook R dbId pg bk c tr \<noteq> None"
  by (auto simp: syncExistingBook_def paginationEnds_def Let_def
      split: option.splits sum.splits prod.splits)

lemma syncBook_returns:
  assumes "paginationEnds R"
  shows "syncBook R dbId i n bk c tr \<noteq> None"
proof -
  define tr0 where "tr0 = tr @ [Progress (Suc i) n (Some (title bk)) (newHighlights c),
                         Log (LogStart (Suc i) n (substring0 (title bk) 35))]"
  define fb where "fb = (if title bk \<noteq> [] then findBookByTitle R dbId (title bk) tr0
                  else (Inr None, tr0))"
  note u = syncBook_found[where R=R and dbId=dbId and i=i and n=n and bk=bk and c=c and tr=tr,
      folded tr0_def, folded fb_def]
  obtain r tr1 where f: "fb = (r, tr1)" by (cases fb) auto
  show ?thesis
  proof (cases r)
    case (Inl e)
    with f show ?thesis by (simp add: u(1))
  next
    case (Inr found)
    with f syncExistingBook_returns[OF assms] show ?thesis
      by (cases found) (simp_all add: u(1))
  qed
qed

lemma syncLoop_returns: "paginationEnds R \<Longrightarrow> syncLoop R dbId n i bks c tr \<noteq> None"
proof (induction bks arbitrary: i c tr)
  case Nil
  show ?case by simp
next
  case (Cons bk rest)
  obtain eo c1 tr1 where b: "syncBook R dbId i n bk c tr = Some (eo, c1, tr1)"
    using syncBook_returns[OF Cons.prems, of dbId i n bk c tr]
    by (cases "syncBook R dbId i n bk c tr") auto
  show ?case using b Cons.IH[OF Cons.prems] by (cases eo) simp_all
qed

lemma syncLoop_catch:
  "syncBook R dbId i n bk c tr = Some (Some e, c1, tr1) \<Longrightarrow>
   syncLoop R dbId n i (bk # rest) c tr =
     syncLoop R dbId n (Suc i) rest c1 (tr1 @ [Log (LogError (substring0 (title bk) 30) e)])"
  by simp

lemma getExistingHighlightsLoop_returns:
  fixes m :: "jsstring option \<Rightarrow> nat"
  assumes m: "\<And>tr pageId cursor response.
        r_children R tr pageId cursor = Inr response \<Longrightarrow> has_more response
          \<Longrightarrow> truthy (next_cursor response) \<Longrightarrow> m (next_cursor response) < m cursor"
  shows "getExistingHighlightsLoop R pid cursor acc tr \<noteq> None"
proof (induction "m (if truthy cursor then cursor else None)" arbitrary: cursor acc tr
    rule: less_induct)
  case less
  let ?c = "if truthy cursor then cursor else None"
  show ?case
  proof (cases "r_children R tr pid ?c")
    case (Inl e)
    then show ?thesis by (subst getExistingHighlightsLoop.simps) simp
  next
    case (Inr response)
    show ?thesis
    proof (cases "truthy (if has_more response then next_cursor response else None)")
      case False
      with Inr show ?thesis by (subst getExistingHighlightsLoop.simps) simp
    next
      case True
      then have hm: "has_more response" and tn: "truthy (next_cursor response)"
        by (auto simp: truthy_def split: if_splits)
      have "m (next_cursor response) < m ?c" using m[OF Inr hm tn] .
      with tn have "m (if truthy (next_cursor response) then next_cursor response else None)
          < m ?c" by simp
      from less[OF this] have
        "getExistingHighlightsLoop R pid (next_cursor response)
           (acc @ blockTexts (results response))
           (tr @ [Request (GetChildren pid ?c)]) \<noteq> None" .
      with Inr True show ?thesis by (subst getExistingHighlightsLoop.simps) simp
    qed
  qed
qed

lemma listingEnds_paginationEnds: "listingEnds R \<Longrightarrow> paginationEnds R"
  unfolding listingEnds_def paginationEnds_def getExistingHighlights_def
  using getExistingHighlightsLoop_returns by blast

lemma syncLoop_bookByBook:
  "syncLoop R dbId n i bks c tr = Some (c', tr') \<Longrightarrow>
   \<exists>outs. bookByBook R dbId n i bks c tr outs c' tr'"
proof (induction bks arbitrary: i c tr)
  case Nil
  then show ?case by simp
next
  case (Cons bk rest)
  from Cons.prems obtain eo c1 tr1 where
    b: "syncBook R dbId i n bk c tr = Some (eo, c1, tr1)"
    by (auto split: option.splits)
  let ?tr = "case eo of None \<Rightarrow> tr1
             | Some e \<Rightarrow> tr1 @ [Log (LogError (substring0 (title bk) 30) e)]"
  from Cons.prems b have "syncLoop R dbId n (Suc i) rest c1 ?tr = Some (c', tr')"
    by (cases eo) simp_all
  from Cons.IH[OF this] obtain outs where
    "bookByBook R dbId n (Suc i) rest c1 ?tr outs c' tr'" by blast
  with b have "bookByBook R dbId n i (bk # rest) c tr (eo # outs) c' tr'" by simp
  then show ?case by blast
qed

lemma bookByBook_outline:
  "bookByBook R dbId n i bks c tr outs c' tr' \<Longrightarrow>
   length outs = length bks \<and> outline tr' = outline tr @ report (Suc i) bks outs"
proof (induction bks arbitrary: i c tr outs)
  case Nil
  then show ?case by simp
next
  case (Cons bk rest)
  from Cons.prems obtain out outs' where o: "outs = out # outs'"
    by (cases outs) auto
  from Cons.prems o obtain c1 tr1 where
    b: "syncBook R dbId i n bk c tr = Some (out, c1, tr1)"
    and r: "bookByBook R dbId n (Suc i) rest c1
              (case out of None \<Rightarrow> tr1
               | Some e \<Rightarrow> tr1 @ [Log (LogError (substring0 (title bk) 30) e)]) outs' c' tr'"
    by (auto split: option.splits)
  note s1 = outline_syncBook[OF b]
  from Cons.IH[OF r] s1 o show ?case by (cases out) simp_all
qed

lemma paged_listingEnds: "listingEnds pagedRemote"
  unfolding listingEnds_def
  by (rule exI[of _ "\<lambda>c. if c = None then 1 else 0"])
    (auto simp: pagedRemote_def truthy_def split: if_splits)

lemma rejecting_listingEnds: "listingEnds rejectingRemote"
  unfolding listingEnds_def by (simp add: rejectingRemote_def)

lemma paged_listing:
  "getExistingHighlights pagedRemote (js ''pageA'') tr =
     Some (Inr [js ''old'', js ''older''],
           tr @ [Request (GetChildren (js ''pageA'') None),
                 Request (GetChildren (js ''pageA'') (Some (js ''c1'')))])"
  unfolding getExistingHighlights_def
  apply (subst getExistingHighlightsLoop.simps)
  apply (simp add: pagedRemote_def truthy_def blockTexts_def)
  apply (subst getExistingHighlightsLoop.simps)
  apply (simp add: pagedRemote_def truthy_def blockTexts_def js_def)
  done

lemma add_one_block:
  "addHighlightBlocks R pid [h] tr =
     (case r_append R tr pid [toBlock h] of
        Inl e \<Rightarrow> (Inl e, tr @ [Request (AppendChildren pid [toBlock h])])
      | Inr u \<Rightarrow> (Inr (), tr @ [Request (AppendChildren pid [toBlock h])]))"
  unfolding addHighlightBlocks_def
  apply (subst addHighlightBlocksLoop.simps)
  apply (simp add: Let_def batchSize_def loop_done split: sum.splits)
  done


lemmas run_eval = syncBooksToNotion_def syncBook_def syncExistingBook_def syncNewBook_def
  findBookByTitle_def createBookPage_def updateBookPage_def getDatabase_def
  titlePropertyName_def createProperties_def newHighlightsList_def toBlock_def
  authorNames_def highlightCountNames_def lastSyncedNames_def amazonUrlNames_def
  coverNames_def configured_def truthy_def substring0_def Let_def

lemma paged_run:
  "syncBooksToNotion configured pagedRemote [bookOld, bookB] [] =
     Some (Inr \<lparr>newBooks = 1, newHighlights = 1, updatedBooks = 0, success = True,
                 totalProcessed = 2\<rparr>,
       [Progress 1 2 (Some (js ''A'')) 0,
        Log (LogStart 1 2 (js ''A'')),
        Request (GetDatabase (js ''db'')),
        Request (QueryByTitle (js ''db'') (js ''Name'') (js ''A'')),
        Request (GetChildren (js ''pageA'') None),
        Request (GetChildren (js ''pageA'') (Some (js ''c1''))),
        Request (AppendChildren (js ''pageA'') [QuoteBlock (js ''new thought'') None]),
        Log (LogError (js ''A'') (ApiError (js ''rejected''))),
        Progress 2 2 (Some (js ''B'')) 0,
        Log (LogStart 2 2 (js ''B'')),
        Request (GetDatabase (js ''db'')),
        Request (QueryByTitle (js ''db'') (js ''Name'') (js ''B'')),
        Request (GetDatabase (js ''db'')),
        Request (CreatePage (js ''db'') [(js ''Name'', PTitle (js ''B''))]),
        Request (AppendChildren (js ''pageB'') [QuoteBlock (js ''so it goes'') (Some (js ''12''))]),
        Log (LogNewBook 1),
        Progress 2 2 None 1,
        Delay 350])"
proof -
  have q: "r_query pagedRemote tr d p t =
      (if t = js ''A'' then Inr [\<lparr>page_id = js ''pageA''\<rparr>] else Inr [])" for tr d p t
    by (simp add: pagedRemote_def)
  have d: "r_database pagedRemote tr d = Inr [(js ''Name'', js ''title'')]" for tr d
    by (simp add: pagedRemote_def)
  have a: "r_append pagedRemote tr p bs =
      (if p = js ''pageA'' then Inl (ApiError (js ''rejected'')) else Inr ())" for tr p bs
    by (simp add: pagedRemote_def)
  have c: "r_create pagedRemote tr dd ps = Inr \<lparr>page_id = js ''pageB''\<rparr>" for tr dd ps
    by (simp add: pagedRemote_def)
  show ?thesis
    by (simp add: run_eval paged_listing[unfolded js_def, simplified] add_one_block q d a c
        bookOld_def bookB_def js_def)
qed

lemma rejecting_run:
  "syncBooksToNotion configured rejectingRemote [bookA, bookB] [] =
     Some (Inr \<lparr>newBooks = 0, newHighlights = 0, updatedBooks = 0, success = True,
                 totalProcessed = 2\<rparr>,
       [Progress 1 2 (Some (js ''A'')) 0,
        Log (LogStart 1 2 (js ''A'')),
        Request (GetDatabase (js ''db'')),
        Log (LogError (js ''A'') (ApiError (js ''rejected''))),
        Progress 2 2 (Some (js ''B'')) 0,
        Log (LogStart 2 2 (js ''B'')),
        Request (GetDatabase (js ''db'')),
        Log (LogError (js ''B'') (ApiError (js ''rejected'')))])"
  by (simp add: run_eval rejectingRemote_def bookA_def bookB_def js_def)


section \<open>The remote sync goes on after a failure\<close>

text \<open>
  Claim C6. With the token and the database id configured, and a remote whose
  listings are finite, \<open>syncBooksToNotion\<close> returns for every list of books and
  whatever else the remote answers, and what it returns is a result with
  \<open>success = true\<close> and \<open>totalProcessed\<close> the number of books, never the error of a
  book. The run is the run of the books one by one: every book is processed in its
  turn from the state the one before left, an error thrown for a book is logged and
  the next book is taken, and the counters returned are those after the last book.
  In the events every book is opened by its progress message and then either
  completed or logged as failed with its error.
\<close>

theorem sync_isolates_failures:
  assumes "truthy (notionToken st)" and "databaseId st = Some dbId" and "dbId \<noteq> []"
    and "listingEnds R"
  shows "\<exists>outs c' tr'.
           bookByBook R dbId (length books) 0 books
             \<lparr>newBooks = 0, newHighlights = 0, updatedBooks = 0\<rparr> tr outs c' tr'
           \<and> syncBooksToNotion st R books tr =
               Some (Inr \<lparr>newBooks = newBooks c', newHighlights = newHighlights c',
                           updatedBooks = updatedBooks c', success = True,
                           totalProcessed = length books\<rparr>, tr')
           \<and> length outs = length books
           \<and> outline tr' = outline tr @ report 1 books outs"
proof -
  let ?c0 = "\<lparr>newBooks = 0, newHighlights = 0, updatedBooks = 0\<rparr>"
  have p: "paginationEnds R" using assms(4) by (rule listingEnds_paginationEnds)
  obtain c' tr' where l: "syncLoop R dbId (length books) 0 books ?c0 tr = Some (c', tr')"
    using syncLoop_returns[OF p, of dbId "length books" 0 books ?c0 tr]
    by (cases "syncLoop R dbId (length books) 0 books ?c0 tr") auto
  from syncLoop_bookByBook[OF l] obtain outs where
    b: "bookByBook R dbId (length books) 0 books ?c0 tr outs c' tr'" by blast
  note o = bookByBook_outline[OF b]
  have "syncBooksToNotion st R books tr =
      Some (Inr \<lparr>newBooks = newBooks c', newHighlights = newHighlights c',
                 updatedBooks = updatedBooks c', success = True,
                 totalProcessed = length books\<rparr>, tr')"
    using assms(1-3) l by (simp add: syncBooksToNotion_def)
  with b o have "bookByBook R dbId (length books) 0 books ?c0 tr outs c' tr'
      \<and> syncBooksToNotion st R books tr =
          Some (Inr \<lparr>newBooks = newBooks c', newHighlights = newHighlights c',
                 updatedBooks = updatedBooks c', success = True,
                 totalProcessed = length books\<rparr>, tr')
      \<and> length outs = length books
      \<and> outline tr' = outline tr @ report 1 books outs"
    by simp
  then show ?thesis by blast
qed

text \<open>
  The theorem for two books on the remote that rejects the append to the page of the
  first: the first book is logged as failed after its listing was read in two
  answers, the second is created. On a remote that rejects everything both books are
  logged as failed, and the result is a success all the same.
\<close>

theorem sync_isolates_failures_witness:
  "truthy (notionToken configured) \<and> databaseId configured = Some (js ''db'')
   \<and> js ''db'' \<noteq> [] \<and> listingEnds pagedRemote
   \<and> (\<exists>outs c' tr'.
         bookByBook pagedRemote (js ''db'') (length [bookOld, bookB]) 0 [bookOld, bookB]
           \<lparr>newBooks = 0, newHighlights = 0, updatedBooks = 0\<rparr> [] outs c' tr'
         \<and> syncBooksToNotion configured pagedRemote [bookOld, bookB] [] =
             Some (Inr \<lparr>newBooks = newBooks c', newHighlights = newHighlights c',
                         updatedBooks = updatedBooks c', success = True,
                         totalProcessed = length [bookOld, bookB]\<rparr>, tr')
         \<and> length outs = length [bookOld, bookB]
         \<and> outline tr' = outline [] @ report 1 [bookOld, bookB] outs)
   \<and> syncBooksToNotion configured pagedRemote [bookOld, bookB] [] =
     Some (Inr \<lparr>newBooks = 1, newHighlights = 1, updatedBooks = 0, success = True,
                 totalProcessed = 2\<rparr>,
       [Progress 1 2 (Some (js ''A'')) 0,
        Log (LogStart 1 2 (js ''A'')),
        Request (GetDatabase (js ''db'')),
        Request (QueryByTitle (js ''db'') (js ''Name'') (js ''A'')),
        Request (GetChildren (js ''pageA'') None),
        Request (GetChildren (js ''pageA'') (Some (js ''c1''))),
        Request (AppendChildren (js ''pageA'') [QuoteBlock (js ''new thought'') None]),
        Log (LogError (js ''A'') (ApiError (js ''rejected''))),
        Progress 2 2 (Some (js ''B'')) 0,
        Log (LogStart 2 2 (js ''B'')),
        Request (GetDatabase (js ''db'')),
        Request (QueryByTitle (js ''db'') (js ''Name'') (js ''B'')),
        Request (GetDatabase (js ''db'')),
        Request (CreatePage (js ''db'') [(js ''Name'', PTitle (js ''B''))]),
        Request (AppendChildren (js ''pageB'') [QuoteBlock (js ''so it goes'') (Some (js ''12''))]),
        Log (LogNewBook 1),
        Progress 2 2 None 1,
        Delay 350])
   \<and> syncBooksToNotion configured rejectingRemote [bookA, bookB] [] =
     Some (Inr \<lparr>newBooks = 0, newHighlights = 0, updatedBooks = 0, success = True,
                 totalProcessed = 2\<rparr>,
       [Progress 1 2 (Some (js ''A'')) 0,
        Log (LogStart 1 2 (js ''A'')),
        Request (GetDatabase (js ''db'')),
        Log (LogError (js ''A'') (ApiError (js ''rejected''))),
        Progress 2 2 (Some (js ''B'')) 0,
        Log (LogStart 2 2 (js ''B'')),
        Request (GetDatabase (js ''db'')),
        Log (LogError (js ''B'') (ApiError (js ''rejected'')))])"
proof -
  have t: "truthy (notionToken configured)" by (simp add: configured_def truthy_def js_def)
  have d: "databaseId configured = Some (js ''db'')" by (simp add: configured_def)
  have n: "js ''db'' \<noteq> []" by (simp add: js_def)
  note run = sync_isolates_failures [OF t d n paged_listingEnds, of "[bookOld, bookB]" "[]"]
  show ?thesis
    using t d n paged_listingEnds run paged_run rejecting_run by (intro conjI) assumption+
qed

section \<open>A failed title query\<close>

lemma findBookByTitle_not_found:
  assumes "r_database R tr dbId = Inr db"
    and "r_query R (tr @ [Request (GetDatabase dbId)]) dbId (titlePropertyName db) t = Inr []"
  shows "fst (findBookByTitle R dbId t tr) = Inr None"
  using assms by (simp add: findBookByTitle_def getDatabase_def Let_def)

text \<open>
  Claim C9. When the database can be read and the title query for a book with a
  non-empty title throws, \<open>findBookByTitle\<close> returns \<open>null\<close>, the value it returns
  for a book that is not found, after that one query and no other. The sync then takes
  the branch of a new book: what it does for the book is \<open>syncNewBook\<close>, which begins
  with \<open>createBookPage\<close>.
\<close>

theorem findBookByTitle_swallows_query_error:
  assumes "title bk \<noteq> []"
    and "tr0 = tr @ [Progress (Suc i) n (Some (title bk)) (newHighlights c),
                     Log (LogStart (Suc i) n (substring0 (title bk) 35))]"
    and "r_database R tr0 dbId = Inr db"
    and "r_query R (tr0 @ [Request (GetDatabase dbId)]) dbId (titlePropertyName db) (title bk)
           = Inl e"
    and "tr1 = tr0 @ [Request (GetDatabase dbId),
                      Request (QueryByTitle dbId (titlePropertyName db) (title bk))]"
  shows "findBookByTitle R dbId (title bk) tr0 = (Inr None, tr1)
         \<and> syncBook R dbId i n bk c tr = Some (finishBook i n (syncNewBook R dbId bk c tr1))"
proof -
  have f: "findBookByTitle R dbId (title bk) tr0 = (Inr None, tr1)"
    using assms by (simp add: findBookByTitle_def getDatabase_def Let_def)
  have "syncBook R dbId i n bk c tr = Some (finishBook i n (syncNewBook R dbId bk c tr1))"
    using f assms(1) unfolding syncBook_def assms(2) by (simp add: Let_def)
  with f show ?thesis by simp
qed

text \<open>The theorem for the book "A" on a remote whose title query times out.\<close>

theorem findBookByTitle_swallows_query_error_witness:
  "title bookA \<noteq> []
   \<and> r_database queryFailingRemote
         [Progress 1 1 (Some (title bookA)) 0, Log (LogStart 1 1 (substring0 (title bookA) 35))]
         (js ''db'') = Inr [(js ''Name'', js ''title'')]
   \<and> r_query queryFailingRemote
         [Progress 1 1 (Some (title bookA)) 0, Log (LogStart 1 1 (substring0 (title bookA) 35)),
          Request (GetDatabase (js ''db''))]
         (js ''db'') (js ''Name'') (title bookA) = Inl (ApiError (js ''timeout''))
   \<and> findBookByTitle queryFailingRemote (js ''db'') (title bookA)
         [Progress 1 1 (Some (title bookA)) 0, Log (LogStart 1 1 (substring0 (title bookA) 35))]
       = (Inr None,
          [Progress 1 1 (Some (title bookA)) 0, Log (LogStart 1 1 (substring0 (title bookA) 35)),
           Request (GetDatabase (js ''db'')),
           Request (QueryByTitle (js ''db'') (js ''Name'') (title bookA))])
   \<and> syncBook queryFailingRemote (js ''db'') 0 1 bookA
         \<lparr>newBooks = 0, newHighlights = 0, updatedBooks = 0\<rparr> []
       = Some (finishBook 0 1 (syncNewBook queryFailingRemote (js ''db'') bookA
           \<lparr>newBooks = 0, newHighlights = 0, updatedBooks = 0\<rparr>
           [Progress 1 1 (Some (title bookA)) 0, Log (LogStart 1 1 (substring0 (title bookA) 35)),
            Request (GetDatabase (js ''db'')),
            Request (QueryByTitle (js ''db'') (js ''Name'') (title bookA))]))"
proof -
  have n: "title bookA \<noteq> []" by (simp add: bookA_def js_def)
  have p: "titlePropertyName [(js ''Name'', js ''title'')] = js ''Name''"
    by (simp add: titlePropertyName_def)
  have d: "r_database queryFailingRemote tr (js ''db'') = Inr [(js ''Name'', js ''title'')]" for tr
    by (simp add: queryFailingRemote_def acceptingRemote_def)
  have q: "r_query queryFailingRemote tr (js ''db'') (js ''Name'') (title bookA)
             = Inl (ApiError (js ''timeout''))" for tr
    by (simp add: queryFailingRemote_def)
  from findBookByTitle_swallows_query_error [OF n refl d, unfolded p, OF q refl,
      of "[]" 0 1 "\<lparr>newBooks = 0, newHighlights = 0, updatedBooks = 0\<rparr>"]
  show ?thesis using n d q by simp
qed

section \<open>A page with nothing to update\<close>

lemma updateProperties_empty:
  "map_of db (js ''Highlight Count'') = None \<Longrightarrow> map_of db (js ''Last Synced'') = None
   \<Longrightarrow> updateProperties db hc = []"
  by (simp add: updateProperties_def split: option.splits)

text \<open>
  Claim C10. When the schema of the database has neither a \<open>Highlight Count\<close> nor a
  \<open>Last Synced\<close> property, \<open>updateBookPage\<close> reads the database and does nothing
  else: no request is made for the page, and the value returned has the id of the
  page that was given.
\<close>

theorem updateBookPage_nothing_to_update:
  assumes "r_database R tr dbId = Inr db"
    and "map_of db (js ''Highlight Count'') = None"
    and "map_of db (js ''Last Synced'') = None"
  shows "updateBookPage R pageId hc dbId tr =
           (Inr \<lparr>page_id = pageId\<rparr>, tr @ [Request (GetDatabase dbId)])"
  using assms by (simp add: updateBookPage_def getDatabase_def updateProperties_empty)

text \<open>The theorem for a database whose only property is the title.\<close>

theorem updateBookPage_nothing_to_update_witness:
  "r_database acceptingRemote [] (js ''db'') = Inr [(js ''Name'', js ''title'')]
   \<and> map_of [(js ''Name'', js ''title'')] (js ''Highlight Count'') = None
   \<and> map_of [(js ''Name'', js ''title'')] (js ''Last Synced'') = None
   \<and> updateBookPage acceptingRemote (js ''page'') (Some 7) (js ''db'') []
       = (Inr \<lparr>page_id = js ''page''\<rparr>, [Request (GetDatabase (js ''db''))])"
proof -
  have d: "r_database acceptingRemote [] (js ''db'') = Inr [(js ''Name'', js ''title'')]"
    by (simp add: acceptingRemote_def)
  have h: "map_of [(js ''Name'', js ''title'')] (js ''Highlight Count'') = None"
    by (simp add: js_def)
  have l: "map_of [(js ''Name'', js ''title'')] (js ''Last Synced'') = None"
    by (simp add: js_def)
  from updateBookPage_nothing_to_update [OF d h l, of "js ''page''" "Some 7"]
  show ?thesis using d h l by simp
qed

section \<open>Batches of at most 100 blocks\<close>

text \<open>
  Claim C3. When the remote accepts the appends, \<open>addHighlightBlocks\<close> sends the
  blocks of the highlights in batches: every request carries the next 100 blocks at
  most, in order, the batches together are all the blocks, there are
  \<open>\<lceil>n / 100\<rceil>\<close> requests for \<open>n\<close> highlights, and a delay of 350 ms stands between
  every two consecutive requests and nowhere else, so one delay less than requests.
\<close>

theorem addHighlightBlocks_batches:
  assumes "appendsOk R pageId"
  shows "addHighlightBlocks R pageId hs tr =
           (Inr (), tr @ intersperse (Delay 350)
              (map (\<lambda>b. Request (AppendChildren pageId b)) (batches (map toBlock hs))))
         \<and> concat (batches (map toBlock hs)) = map toBlock hs
         \<and> (\<forall>b \<in> set (batches (map toBlock hs)). length b \<le> 100)
         \<and> length (batches (map toBlock hs)) = (length hs + 99) div 100
         \<and> length (filter isRequest (intersperse (Delay 350)
              (map (\<lambda>b. Request (AppendChildren pageId b)) (batches (map toBlock hs)))))
             = (length hs + 99) div 100
         \<and> length (filter isDelay (intersperse (Delay 350)
              (map (\<lambda>b. Request (AppendChildren pageId b)) (batches (map toBlock hs)))))
             = (length hs + 99) div 100 - 1"
proof -
  have run: "addHighlightBlocks R pageId hs tr =
           (Inr (), tr @ intersperse (Delay 350)
              (map (\<lambda>b. Request (AppendChildren pageId b)) (batches (map toBlock hs))))"
    using loop_ok [OF assms refl, of 0 "map toBlock hs" tr]
    by (simp add: addHighlightBlocks_def batches_def comp_def)
  have len: "length (batches (map toBlock hs)) = (length hs + 99) div 100"
    by (simp add: batches_def)
  have cap: "\<forall>b \<in> set (batches (map toBlock hs)). length b \<le> 100"
    by (auto simp: batches_def)
  show ?thesis
    using run len cap concat_batches [of "map toBlock hs"]
    by (simp add: count_requests count_delays)
qed

text \<open>The theorem for 250 highlights: three requests and two delays.\<close>

theorem addHighlightBlocks_batches_witness:
  "appendsOk acceptingRemote (js ''page'')
   \<and> fst (addHighlightBlocks acceptingRemote (js ''page'') (replicate 250 journey) []) = Inr ()
   \<and> length (filter isRequest
        (snd (addHighlightBlocks acceptingRemote (js ''page'') (replicate 250 journey) []))) = 3
   \<and> length (filter isDelay
        (snd (addHighlightBlocks acceptingRemote (js ''page'') (replicate 250 journey) []))) = 2"
proof -
  have ok: "appendsOk acceptingRemote (js ''page'')"
    by (simp add: appendsOk_def acceptingRemote_def)
  from addHighlightBlocks_batches [OF ok, of "replicate 250 journey" "[]"]
  show ?thesis using ok by simp
qed

section \<open>New highlights\<close>

text \<open>
  Claim C2. A highlight is forwarded as new exactly when no existing text contains
  the first 50 code units of its text as a substring, and the new highlights are the
  extracted ones in their order, with the others left out.
\<close>

theorem newHighlights_novel_in_order:
  "newHighlightsList existing hs =
     filter (\<lambda>h. \<not> (\<exists>e \<in> set existing. sublist (take 50 (htext h)) e)) hs
   \<and> subseq (newHighlightsList existing hs) hs"
  by (simp add: newHighlightsList_def list_ex_iff str_includes_sublist substring0_def)

text \<open>
  The theorem for one stored text and two highlights: the first begins with the 50
  code units of the stored text and is left out, the second is new.
\<close>

theorem newHighlights_novel_in_order_witness:
  "newHighlightsList [foxStored] [foxAgain, journey] = [journey]
   \<and> [journey] = filter (\<lambda>h. \<not> (\<exists>e \<in> set [foxStored]. sublist (take 50 (htext h)) e))
        [foxAgain, journey]
   \<and> subseq [journey] [foxAgain, journey]"
proof -
  have e: "newHighlightsList [foxStored] [foxAgain, journey] = [journey]"
    by (simp add: newHighlightsList_def foxStored_def foxAgain_def journey_def js_def
        substring0_def)
  from newHighlights_novel_in_order [of "[foxStored]" "[foxAgain, journey]"]
  show ?thesis unfolding e by simp
qed

section \<open>The candidate planner\<close>

lemma shouldProcess_unlimited:
  "shouldProcess N S 0 a t k = shouldProcess N S 0 0 t k"
  by (simp add: shouldProcess_def)

lemma selected_planStep:
  "selectedIndices (planStep N S lim i c p) =
     selectedIndices p \<union>
       (if shouldProcess N S lim (length (booksToProcess p)) (titleOf i c) (currentHighlightCount c)
        then {i} else {})"
  by (simp add: planStep_def selectedIndices_def Let_def)

lemma selected_firstPass_unlimited:
  "j \<in> selectedIndices (firstPass N S 0 i cs p) \<longleftrightarrow>
     j \<in> selectedIndices p \<or>
     (i \<le> j \<and> j < i + length cs \<and>
      shouldProcess N S 0 0 (titleOf j (cs ! (j - i))) (currentHighlightCount (cs ! (j - i))))"
proof (induction cs arbitrary: i p)
  case Nil
  show ?case by auto
next
  case (Cons c cs)
  have nth: "Suc i \<le> j \<Longrightarrow> (c # cs) ! (j - i) = cs ! (j - Suc i)" 
    by (simp add: Suc_diff_le)
  show ?case
  proof (cases "j = i")
    case True
    then show ?thesis
      using Cons.IH[of "Suc i" "planStep N S 0 i c p"]
      by (auto simp: selected_planStep shouldProcess_unlimited[of N S "length (booksToProcess p)"])
  next
    case False
    then show ?thesis
      using Cons.IH[of "Suc i" "planStep N S 0 i c p"] nth
      by (auto simp: selected_planStep split: if_splits)
  qed
qed

lemma indices_firstPass_limited:
  "0 < lim \<Longrightarrow>
   map e_index (booksToProcess (firstPass N S lim i cs p)) =
     map e_index (booksToProcess p) @ take (lim - length (booksToProcess p)) [i ..< i + length cs]"
proof (induction cs arbitrary: i p)
  case Nil
  show ?case by simp
next
  case (Cons c cs)
  have up: "[i ..< i + length (c # cs)] = i # [Suc i ..< Suc i + length cs]"
    using upt_conv_Cons[of i "i + length (c # cs)"] by simp
  show ?case
  proof (cases "length (booksToProcess p) < lim")
    case True
    then have st: "booksToProcess (planStep N S lim i c p) = booksToProcess p @
        [\<lparr>e_index = i, e_title = titleOf i c, e_highlightCount = currentHighlightCount c,
          e_bookKey = bookKey (titleOf i c)\<rparr>]"
      using Cons.prems by (simp add: planStep_def shouldProcess_def Let_def)
    from True obtain d where d: "lim - length (booksToProcess p) = Suc d"
      by (cases "lim - length (booksToProcess p)") auto
    then have d': "lim - Suc (length (booksToProcess p)) = d" by simp
    show ?thesis
      using Cons.IH[OF Cons.prems, of "Suc i" "planStep N S lim i c p"]
      unfolding up by (simp add: st d d')
  next
    case False
    then have st: "booksToProcess (planStep N S lim i c p) = booksToProcess p"
      using Cons.prems by (simp add: planStep_def shouldProcess_def Let_def)
    show ?thesis
      using Cons.IH[OF Cons.prems, of "Suc i" "planStep N S lim i c p"] False
      by (simp add: st)
  qed
qed

lemma take_upt_min: "take m [0 ..< n] = [0 ..< min m n]"
  by (cases "m \<le> n") simp_all

lemma planBooks_unlimited:
  "j \<in> selectedIndices (planBooks N L 0 cs) \<longleftrightarrow>
     j < length cs \<and>
     shouldProcess N (comparedCounts N L) 0 0 (titleOf j (cs ! j)) (currentHighlightCount (cs ! j))"
  using selected_firstPass_unlimited[of j N "comparedCounts N L" 0 cs
      "\<lparr>booksToProcess = [], newCounts = [], skippedBooks = 0\<rparr>"]
  by (simp add: planBooks_def Let_def selectedIndices_def)

lemma planBooks_limited:
  assumes "0 < lim"
  shows "j \<in> selectedIndices (planBooks N L lim cs) \<longleftrightarrow> j < length cs \<and> j < lim"
proof -
  let ?p = "firstPass N (comparedCounts N L) lim 0 cs
              \<lparr>booksToProcess = [], newCounts = [], skippedBooks = 0\<rparr>"
  have m: "map e_index (booksToProcess ?p) = take lim [0 ..< length cs]"
    using indices_firstPass_limited[OF assms, of N "comparedCounts N L" 0 cs
        "\<lparr>booksToProcess = [], newCounts = [], skippedBooks = 0\<rparr>"] by simp
  then have "length (booksToProcess ?p) \<le> lim"
    using length_map[of e_index "booksToProcess ?p"] by simp
  then have "booksToProcess (planBooks N L lim cs) = booksToProcess ?p"
    by (simp add: planBooks_def Let_def)
  then have "selectedIndices (planBooks N L lim cs) = set (take lim [0 ..< length cs])"
    unfolding selectedIndices_def using m by (metis set_map)
  then show ?thesis by (auto simp: take_upt_min)
qed


lemma shouldProcess_present:
  assumes "map_of N t = Some r"
  shows "shouldProcess N (comparedCounts N L) 0 0 t k \<longleftrightarrow> k > 0 \<and> k > r"
proof -
  from assms have "N \<noteq> []" by auto
  with assms show ?thesis
    by (simp add: shouldProcess_def comparedCounts_def existsInNotion_def savedCountOf_def
        getProp_def)
qed

lemma shouldProcess_absent:
  assumes "map_of N t = None" and "t \<notin> set objectPrototypeNames"
  shows "shouldProcess N S 0 0 t k"
  using assms by (simp add: shouldProcess_def existsInNotion_def getProp_def)

text \<open>
  Claim C1, as the code has it. Outside limited mode, a candidate whose title is in
  the Notion count mapping (so the run is not a first sync) is selected exactly when
  its live count is greater than zero and greater than the remote count. For a remote
  count that is not negative this is: the live count is known and greater than the
  remote count. A candidate of the mapping whose live count could not be read is
  never selected.
\<close>

theorem planner_remote_present:
  assumes "j < length cs" and "map_of N (titleOf j (cs ! j)) = Some r"
  shows "(j \<in> selectedIndices (planBooks N L 0 cs) \<longleftrightarrow>
            currentHighlightCount (cs ! j) > 0 \<and> currentHighlightCount (cs ! j) > r)
       \<and> (0 \<le> r \<longrightarrow>
            (j \<in> selectedIndices (planBooks N L 0 cs) \<longleftrightarrow>
               currentHighlightCount (cs ! j) \<noteq> -1 \<and> currentHighlightCount (cs ! j) > r))
       \<and> (highlightMatch (cs ! j) = None \<longrightarrow> j \<notin> selectedIndices (planBooks N L 0 cs))"
proof -
  have sel: "j \<in> selectedIndices (planBooks N L 0 cs) \<longleftrightarrow>
            currentHighlightCount (cs ! j) > 0 \<and> currentHighlightCount (cs ! j) > r"
    using assms by (simp add: planBooks_unlimited shouldProcess_present)
  have unk: "highlightMatch (cs ! j) = None \<Longrightarrow> currentHighlightCount (cs ! j) = -1"
    by (simp add: currentHighlightCount_def)
  show ?thesis using sel unk by auto
qed

text \<open>The theorem for a book with 10 highlights in Notion and 12 in the library.\<close>

theorem planner_remote_present_witness:
  "0 < length [duneGrown] \<and> map_of [(js ''Dune'', 10)] (titleOf 0 ([duneGrown] ! 0)) = Some 10
   \<and> 0 \<in> selectedIndices (planBooks [(js ''Dune'', 10)] [] 0 [duneGrown])
   \<and> currentHighlightCount ([duneGrown] ! 0) = 12"
proof -
  have l: "0 < length [duneGrown]" by simp
  have m: "map_of [(js ''Dune'', 10)] (titleOf 0 ([duneGrown] ! 0)) = Some 10"
    by (simp add: titleOf_def duneGrown_def)
  have c: "currentHighlightCount ([duneGrown] ! 0) = 12"
    by (simp add: currentHighlightCount_def duneGrown_def)
  from planner_remote_present [OF l m, of "[]"] show ?thesis using l m c by simp
qed

text \<open>
  The claim as written (known and greater) fails for a live count of zero and a
  negative remote count: zero is a known count greater than \<open>-2\<close>, and the book is
  not selected.
\<close>

theorem planner_known_and_greater_counterexample:
  "map_of [(js ''Dune'', -2)] (titleOf 0 duneUnread) = Some (-2)
   \<and> currentHighlightCount duneUnread \<noteq> -1
   \<and> currentHighlightCount duneUnread > -2
   \<and> 0 \<notin> selectedIndices (planBooks [(js ''Dune'', -2)] [] 0 [duneUnread])"
  by (simp add: planBooks_unlimited shouldProcess_def comparedCounts_def existsInNotion_def
      savedCountOf_def getProp_def titleOf_def currentHighlightCount_def duneUnread_def)

text \<open>
  A candidate whose title is not in the Notion count mapping, and is not the name of
  a member of \<open>Object.prototype\<close> either, is selected whatever its live count is; in
  limited mode it is selected unless the limit has been reached when its turn comes,
  which is when its position is not below the limit.
\<close>

lemma planner_absent_own_name:
  assumes "j < length cs" and "map_of N (titleOf j (cs ! j)) = None"
    and "titleOf j (cs ! j) \<notin> set objectPrototypeNames"
  shows "j \<in> selectedIndices (planBooks N L lim cs) \<longleftrightarrow> (0 < lim \<longrightarrow> j < lim)"
proof (cases "0 < lim")
  case True
  with assms(1) show ?thesis by (simp add: planBooks_limited)
next
  case False
  with assms show ?thesis by (simp add: planBooks_unlimited shouldProcess_absent)
qed

lemma planner_selects_emma:
  "0 \<in> selectedIndices (planBooks [(js ''Dune'', 10)] [] 0 [emmaUnknown])"
proof -
  have "titleOf 0 ([emmaUnknown] ! 0) = js ''Emma''" by (simp add: titleOf_def emmaUnknown_def)
  moreover have "map_of [(js ''Dune'', 10)] (js ''Emma'') = None" by (simp add: js_def)
  moreover have "js ''Emma'' \<notin> set objectPrototypeNames"
    by (simp add: objectPrototypeNames_def js_def)
  ultimately show ?thesis
    using planner_absent_own_name [of 0 "[emmaUnknown]" "[(js ''Dune'', 10)]" "[]" 0] by simp
qed

text \<open>
  Claim C4 on the code. The test \<open>notionCounts[title] !== undefined\<close> also finds what
  a plain object inherits. Notion knows only "Dune"; the library shows a book titled
  "constructor" with 3 highlights, outside limited mode and not on a first sync. The
  title is not in the mapping, and the book is not selected: the lookup gives the
  inherited function, which counts as present and is not less than any count.
\<close>

theorem planner_skips_inherited_title:
  "map_of [(js ''Dune'', 10)] (titleOf 0 constructorBook) = None
   \<and> currentHighlightCount constructorBook = 3
   \<and> existsInNotion [(js ''Dune'', 10)] (titleOf 0 constructorBook)
   \<and> 0 \<notin> selectedIndices (planBooks [(js ''Dune'', 10)] [] 0 [constructorBook])"
  by (simp add: planBooks_unlimited shouldProcess_def comparedCounts_def existsInNotion_def
      savedCountOf_def getProp_def objectPrototypeNames_def titleOf_def
      currentHighlightCount_def constructorBook_def js_def)

section \<open>The local cache after a run\<close>

lemma newCounts_planStep:
  "newCounts (planStep N S lim i c p) =
     (if currentHighlightCount c > 0
      then setProp (bookKey (titleOf i c)) (currentHighlightCount c) (newCounts p)
      else newCounts p)"
  by (simp add: planStep_def Let_def)

lemma newCounts_firstPass:
  "newCounts (firstPass N S lim i cs p) = collectCounts i cs (newCounts p)"
  by (induction cs arbitrary: i p) (simp_all add: newCounts_planStep)

lemma newCounts_planBooks:
  "newCounts (planBooks N L lim cs) = collectCounts 0 cs []"
  by (simp add: planBooks_def Let_def newCounts_firstPass)

lemma map_of_objectSpread: "map_of (objectSpread a b) = map_of a ++ map_of (rev b)"
  unfolding objectSpread_def
proof (induction b arbitrary: a)
  case Nil
  show ?case by simp
next
  case (Cons x b)
  obtain k v where x: "x = (k, v)" by (cases x)
  have "map_of (AList.update k v a) ++ map_of (rev b)
      = map_of a ++ (map_of [(k, v)] ++ map_of (rev b))"
    by (simp add: update_conv' map_add_upd_left fun_eq_iff map_add_def split: option.splits)
  then show ?case using Cons.IH[of "AList.update k v a"] by (simp add: x)
qed

lemma in_set_update:
  "(k, v) \<in> set (AList.update k' v' al) \<Longrightarrow> (k, v) \<in> set al \<or> (k = k' \<and> v = v')"
  by (induction al) (auto split: if_splits)

lemma in_set_setProp:
  "(k, v) \<in> set (setProp k' v' al) \<Longrightarrow> (k, v) \<in> set al \<or> (k = k' \<and> v = v')"
  using in_set_update[of k v k' v' al] by (auto simp: setProp_def split: if_splits)

lemma collectCounts_observed:
  "(k, v) \<in> set (collectCounts i cs acc) \<Longrightarrow>
     (k, v) \<in> set acc \<or>
     (\<exists>j. i \<le> j \<and> j < i + length cs \<and> k = bookKey (titleOf j (cs ! (j - i)))
          \<and> v = currentHighlightCount (cs ! (j - i)) \<and> 0 < v)"
proof (induction cs arbitrary: i acc)
  case Nil
  then show ?case by simp
next
  case (Cons c cs)
  let ?acc = "if currentHighlightCount c > 0
        then setProp (bookKey (titleOf i c)) (currentHighlightCount c) acc else acc"
  from Cons.prems have "(k, v) \<in> set (collectCounts (Suc i) cs ?acc)" by simp
  from Cons.IH[OF this] consider
    (old) "(k, v) \<in> set ?acc"
    | (new) j where "Suc i \<le> j" "j < Suc i + length cs" "k = bookKey (titleOf j (cs ! (j - Suc i)))"
        "v = currentHighlightCount (cs ! (j - Suc i))" "0 < v"
    by blast
  then show ?case
  proof cases
    case old
    show ?thesis
    proof (cases "currentHighlightCount c > 0")
      case False
      with old show ?thesis by simp
    next
      case True
      with old have "(k, v) \<in> set (setProp (bookKey (titleOf i c)) (currentHighlightCount c) acc)"
        by simp
      then have "(k, v) \<in> set acc \<or> (k = bookKey (titleOf i c) \<and> v = currentHighlightCount c)"
        by (rule in_set_setProp)
      then show ?thesis
      proof
        assume "(k, v) \<in> set acc" then show ?thesis by simp
      next
        assume "k = bookKey (titleOf i c) \<and> v = currentHighlightCount c"
        with True have "i \<le> i \<and> i < i + length (c # cs)
            \<and> k = bookKey (titleOf i ((c # cs) ! (i - i)))
            \<and> v = currentHighlightCount ((c # cs) ! (i - i)) \<and> 0 < v" by simp
        then show ?thesis by blast
      qed
    qed
  next
    case new
    then have "i \<le> j \<and> j < i + length (c # cs)
        \<and> k = bookKey (titleOf j ((c # cs) ! (j - i)))
        \<and> v = currentHighlightCount ((c # cs) ! (j - i)) \<and> 0 < v"
      by (simp add: Suc_diff_le)
    then show ?thesis by blast
  qed
qed


lemma objectSpread_Some:
  assumes "map_of (objectSpread a b) k = Some v"
  shows "map_of a k = Some v \<or> (k, v) \<in> set b"
proof -
  from assms have "map_of (rev b) k = Some v \<or> map_of a k = Some v"
    by (auto simp: map_of_objectSpread map_add_Some_iff)
  then show ?thesis using map_of_SomeD[of "rev b" k v] by auto
qed

lemma objectSpread_keeps_keys:
  "map_of a k \<noteq> None \<Longrightarrow> map_of (objectSpread a b) k \<noteq> None"
  by (auto simp: map_of_objectSpread map_add_def split: option.splits)

lemma collectCounts_from_library:
  assumes "(k, v) \<in> set (collectCounts 0 cs [])"
  shows "\<exists>j < length cs. k = bookKey (titleOf j (cs ! j))
           \<and> v = currentHighlightCount (cs ! j) \<and> 0 < v"
  using collectCounts_observed[OF assms] by auto

text \<open>
  Where the local cache is what the run compares with, the saved cache is the old one
  merged with the observed counts: \<open>extractAllBooksAutoWithProgress\<close> always, and
  \<open>extractAllBooksAuto\<close> when there are no Notion counts.
\<close>

lemma cacheAfterRunWithProgress_merged:
  "(map_of L k \<noteq> None \<longrightarrow> map_of (cacheAfterRunWithProgress L cs w) k \<noteq> None)
   \<and> (map_of (cacheAfterRunWithProgress L cs w) k = Some v \<longrightarrow>
        map_of L k = Some v \<or>
        (\<exists>j < length cs. k = bookKey (titleOf j (cs ! j))
           \<and> v = currentHighlightCount (cs ! j) \<and> 0 < v))"
  using objectSpread_keeps_keys[of L k "collectCounts 0 cs []"]
    objectSpread_Some[of L "collectCounts 0 cs []" k v]
    collectCounts_from_library[of k v cs]
  by (auto simp: cacheAfterRunWithProgress_def Let_def)

lemma cacheAfterRun_merged_without_notion:
  "(map_of L k \<noteq> None \<longrightarrow> map_of (cacheAfterRun [] L lim cs w) k \<noteq> None)
   \<and> (map_of (cacheAfterRun [] L lim cs w) k = Some v \<longrightarrow>
        map_of L k = Some v \<or>
        (\<exists>j < length cs. k = bookKey (titleOf j (cs ! j))
           \<and> v = currentHighlightCount (cs ! j) \<and> 0 < v))"
  using objectSpread_keeps_keys[of L k "collectCounts 0 cs []"]
    objectSpread_Some[of L "collectCounts 0 cs []" k v]
    collectCounts_from_library[of k v cs]
  by (auto simp: cacheAfterRun_def Let_def comparedCounts_def newCounts_planBooks)

text \<open>
  Claim C5 on the code. With Notion counts at hand, \<open>extractAllBooksAuto\<close> merges the
  observed counts into the Notion counts and saves that: the local cache held a count
  for "Old_Book", Notion knows "Dune", the library shows "Dune" without a readable
  count, and after the run the cache is the Notion mapping and the entry of
  "Old_Book" is gone.
\<close>

theorem cache_replaced_by_notion_counts:
  "cacheAfterRun [(js ''Dune'', 7)] [(js ''Old_Book'', 3)] 0 [duneUnknown] True
     = [(js ''Dune'', 7)]
   \<and> map_of [(js ''Old_Book'', 3)] (js ''Old_Book'') = Some 3
   \<and> map_of (cacheAfterRun [(js ''Dune'', 7)] [(js ''Old_Book'', 3)] 0 [duneUnknown] True)
        (js ''Old_Book'') = None"
proof -
  have r: "cacheAfterRun [(js ''Dune'', 7)] [(js ''Old_Book'', 3)] 0 [duneUnknown] True
     = [(js ''Dune'', 7)]"
    by (simp add: cacheAfterRun_def Let_def comparedCounts_def newCounts_planBooks
        currentHighlightCount_def duneUnknown_def objectSpread_def)
  show ?thesis unfolding r by (simp add: js_def)
qed

end
